theory Spec2Isabelle
  imports Complex_Main "HOL-Library.AList" "HOL-Library.Code_Target_Nat"
begin

section \<open>JavaScript numbers\<close>

text \<open>
  The commit parser computes with JavaScript numbers. A number is modelled as an exact
  rational, or one of the three special values of IEEE 754 that the program can produce
  or receive: \<open>NaN\<close> and the two infinities. The model is idealised in two respects, which
  hold for every definition below: finite arithmetic is exact (no rounding to 53 bits, no
  overflow, no underflow; whole numbers such as the lines of a commit or the milliseconds
  of a date are integers of any size), and there is one zero (no negative zero; a
  division of a non-zero number by zero takes the zero as positive).
\<close>

datatype jsnum = Num rat | NaN | PosInf | NegInf

fun js_sign :: "jsnum \<Rightarrow> int" where
  "js_sign (Num a) = (if a < 0 then -1 else if a = 0 then 0 else 1)"
| "js_sign NaN = 0"
| "js_sign PosInf = 1"
| "js_sign NegInf = -1"

definition signed_inf :: "int \<Rightarrow> jsnum" where
  "signed_inf s = (if s = 0 then NaN else if 0 < s then PosInf else NegInf)"

text \<open>\<open>x * y\<close>: \<open>NaN\<close> is contagious, and an infinity times zero is \<open>NaN\<close>.\<close>

fun js_mul :: "jsnum \<Rightarrow> jsnum \<Rightarrow> jsnum" where
  "js_mul (Num a) (Num b) = Num (a * b)"
| "js_mul NaN y = NaN"
| "js_mul x NaN = NaN"
| "js_mul x y = signed_inf (js_sign x * js_sign y)"

text \<open>
  \<open>x / y\<close>: \<open>0 / 0\<close> and an infinity over an infinity are \<open>NaN\<close>; a non-zero number over
  zero is an infinity; a finite number over an infinity is zero.
\<close>

fun js_div :: "jsnum \<Rightarrow> jsnum \<Rightarrow> jsnum" where
  "js_div (Num a) (Num b) = (if b = 0 then signed_inf (js_sign (Num a)) else Num (a / b))"
| "js_div NaN y = NaN"
| "js_div x NaN = NaN"
| "js_div (Num a) y = Num 0"
| "js_div x (Num b) = signed_inf (js_sign x * (if b < 0 then -1 else 1))"
| "js_div x y = NaN"

text \<open>\<open>x - y\<close>: the difference of two infinities of the same sign is \<open>NaN\<close>.\<close>

fun js_sub :: "jsnum \<Rightarrow> jsnum \<Rightarrow> jsnum" where
  "js_sub (Num a) (Num b) = Num (a - b)"
| "js_sub NaN y = NaN"
| "js_sub x NaN = NaN"
| "js_sub (Num a) PosInf = NegInf"
| "js_sub (Num a) NegInf = PosInf"
| "js_sub PosInf PosInf = NaN"
| "js_sub NegInf NegInf = NaN"
| "js_sub x y = x"

text \<open>\<open>x < y\<close>: false as soon as one side is \<open>NaN\<close>.\<close>

fun js_lt :: "jsnum \<Rightarrow> jsnum \<Rightarrow> bool" where
  "js_lt (Num a) (Num b) = (a < b)"
| "js_lt NaN y = False"
| "js_lt x NaN = False"
| "js_lt x NegInf = False"
| "js_lt PosInf y = False"
| "js_lt x y = True"

text \<open>Truthiness of a number, and \<open>x || y\<close> on numbers: zero and \<open>NaN\<close> are falsy.\<close>

fun truthy :: "jsnum \<Rightarrow> bool" where
  "truthy (Num a) = (a \<noteq> 0)"
| "truthy NaN = False"
| "truthy x = True"

definition js_or :: "jsnum \<Rightarrow> jsnum \<Rightarrow> jsnum" where
  "js_or x y = (if truthy x then x else y)"

text \<open>\<open>ToNumber\<close> of a property that may be absent: \<open>undefined\<close> converts to \<open>NaN\<close>.\<close>

fun num_of :: "jsnum option \<Rightarrow> jsnum" where
  "num_of None = NaN"
| "num_of (Some x) = x"

definition pow10 :: "int \<Rightarrow> rat" where
  "pow10 p = (if 0 \<le> p then 10 ^ nat p else 1 / 10 ^ nat (- p))"

subsection \<open>parseInt applied to a number\<close>

text \<open>
  \<open>parseInt(x, 10)\<close> first converts the number \<open>x\<close> to a string (\<open>Number::toString\<close>) and
  then reads the longest prefix of that string that is an optionally signed run of
  decimal digits. For \<open>10\<^sup>-\<^sup>6 \<le> |x| < 10\<^sup>2\<^sup>1\<close> the string is in positional notation and
  the prefix is the integer part of \<open>x\<close>. Outside that range (zero apart) the string is in
  exponent notation, \<open>d.ddde-7\<close> or \<open>d.ddde+21\<close>, and the prefix is the single leading
  digit \<open>d\<close>. \<open>NaN\<close> and the infinities print as words, which have no digit prefix.
\<close>

function lead_digit :: "rat \<Rightarrow> int" where
  "lead_digit m =
     (if m \<le> 0 then 0
      else if m < 1 then lead_digit (m * 10)
      else if 10 \<le> m then lead_digit (m / 10)
      else \<lfloor>m\<rfloor>)"
  by pat_completeness auto

termination lead_digit
proof (relation "measure (\<lambda>m. if m < 1 then nat \<lceil>1 / m\<rceil> + 10 else nat \<lfloor>m\<rfloor>)", goal_cases)
  case 1
  show ?case by simp
next
  case (2 m)
  then have pos: "0 < m" and lt: "m < 1" by simp_all
  show ?case
  proof (cases "m * 10 < 1")
    case True
    have a: "10 < 1 / m" using pos True by (simp add: field_simps)
    have b: "1 / (m * 10) = (1 / m) / 10" by simp
    have c: "(1 / m) / 10 \<le> 1 / m - 9" using a by simp
    have "\<lceil>1 / (m * 10)\<rceil> \<le> \<lceil>1 / m - 9\<rceil>" unfolding b using c by (rule ceiling_mono)
    also have "\<dots> = \<lceil>1 / m\<rceil> - 9" by linarith
    finally have "\<lceil>1 / (m * 10)\<rceil> < \<lceil>1 / m\<rceil>" by simp
    moreover have "0 < \<lceil>1 / m\<rceil>" using a by linarith
    ultimately have "nat \<lceil>1 / (m * 10)\<rceil> < nat \<lceil>1 / m\<rceil>" by linarith
    with True lt show ?thesis by simp
  next
    case False
    then have "m * 10 < 10" "1 \<le> m * 10" using lt by simp_all
    then have "nat \<lfloor>m * 10\<rfloor> < 10" by linarith
    then have "nat \<lfloor>m * 10\<rfloor> < nat \<lceil>1 / m\<rceil> + 10" by linarith
    with False lt show ?thesis by simp
  qed
next
  case (3 m)
  then have ge: "10 \<le> m" by simp
  then have "m / 10 \<le> m - 9" by simp
  then have "\<lfloor>m / 10\<rfloor> \<le> \<lfloor>m - 9\<rfloor>" by (rule floor_mono)
  also have "\<dots> = \<lfloor>m\<rfloor> - 9" by linarith
  finally have "\<lfloor>m / 10\<rfloor> < \<lfloor>m\<rfloor>" by simp
  moreover have "0 < \<lfloor>m\<rfloor>" using ge by linarith
  ultimately have "nat \<lfloor>m / 10\<rfloor> < nat \<lfloor>m\<rfloor>" by linarith
  moreover have "\<not> m / 10 < 1" "\<not> m < 1" using ge by simp_all
  ultimately show ?case by simp
qed

declare lead_digit.simps [simp del]

fun parseInt :: "jsnum \<Rightarrow> jsnum" where
  "parseInt (Num a) =
     (if a = 0 then Num 0
      else if 1 / 10 ^ 6 \<le> \<bar>a\<bar> \<and> \<bar>a\<bar> < 10 ^ 21
        then Num (of_int (js_sign (Num a) * \<lfloor>\<bar>a\<bar>\<rfloor>))
        else Num (of_int (js_sign (Num a) * lead_digit \<bar>a\<bar>)))"
| "parseInt x = NaN"

subsection \<open>Rounding to a number of decimal digits\<close>

text \<open>
  \<open>Math.round\<close> rounds to the nearest integer, a tie going up; it returns \<open>NaN\<close> and the
  infinities unchanged.
\<close>

fun math_round :: "jsnum \<Rightarrow> jsnum" where
  "math_round (Num a) = Num (of_int \<lfloor>a + 1 / 2\<rfloor>)"
| "math_round x = x"

text \<open>
  Modelled from the documentation of lodash (the library is not part of the repository):
  \<open>_.round(number, precision)\<close> converts the precision to an integer of at most 292;
  for a finite number it shifts the decimal point by \<open>precision\<close> places (through the
  exponent of the number's string form, so without rounding error), applies
  \<open>Math.round\<close> and shifts back. The precision is an integer here, as the settings give
  it.
\<close>

fun lodash_round :: "jsnum \<Rightarrow> int \<Rightarrow> jsnum" where
  "lodash_round (Num a) precision =
     (let p = min precision 292
      in Num (of_int \<lfloor>a * pow10 p + 1 / 2\<rfloor> / pow10 p))"
| "lodash_round x precision = math_round x"

section \<open>JavaScript strings\<close>

text \<open>
  A string is a list of code units; the model has the code units below 256. The text
  that git prints for hashes, time stamps and statistics is ASCII.
\<close>

definition is_digit :: "char \<Rightarrow> bool" where
  "is_digit c = (c \<in> set ''0123456789'')"

definition digit_val :: "char \<Rightarrow> nat" where
  "digit_val c = of_char c - of_char (CHR ''0'')"

text \<open>The value of a run of decimal digits.\<close>

definition dec :: "string \<Rightarrow> nat" where
  "dec ds = foldl (\<lambda>a c. 10 * a + digit_val c) 0 ds"

text \<open>
  \<open>s.split(sep)\<close> for a separator of one character: the pieces between the separators,
  in order; a string with no separator is its own single piece, so the first piece always
  exists.
\<close>

fun js_split :: "char \<Rightarrow> string \<Rightarrow> string list" where
  "js_split sep [] = [[]]"
| "js_split sep (c # cs) =
     (if c = sep then [] # js_split sep cs
      else (case js_split sep cs of
              [] \<Rightarrow> [[c]]
            | p # ps \<Rightarrow> (c # p) # ps))"

text \<open>Reading index \<open>i\<close> of an array: \<open>undefined\<close> past the end.\<close>

definition at_index :: "'a list \<Rightarrow> nat \<Rightarrow> 'a option" where
  "at_index xs i = (if i < length xs then Some (xs ! i) else None)"

text \<open>\<open>ToString\<close> of a string that may be \<open>undefined\<close>.\<close>

fun to_string :: "string option \<Rightarrow> string" where
  "to_string None = ''undefined''"
| "to_string (Some s) = s"

definition starts_with :: "string \<Rightarrow> string \<Rightarrow> bool" where
  "starts_with p s = (take (length p) s = p)"

text \<open>
  \<open>/([0-9]+)<suffix>/.exec(s)\<close>, the capture group of the leftmost match, for a literal
  suffix that begins with a character other than a digit: the match starts at the first
  position where a maximal run of digits is directly followed by the suffix. (A shorter
  run from the same start cannot match, since the character after it is a digit.)
\<close>

fun exec_digits :: "string \<Rightarrow> string \<Rightarrow> string option" where
  "exec_digits suffix [] = None"
| "exec_digits suffix (c # cs) =
     (let ds = takeWhile is_digit (c # cs); rest = dropWhile is_digit (c # cs)
      in if ds \<noteq> [] \<and> starts_with suffix rest then Some ds
         else exec_digits suffix cs)"

subsection \<open>ToNumber applied to a string\<close>

text \<open>
  \<open>datetime * 1000\<close> converts the string \<open>datetime\<close> to a number by the grammar of
  \<open>StringNumericLiteral\<close>: white space around the literal is dropped; the empty string is
  \<open>0\<close>; a literal is an optionally signed decimal (digits, an optional fraction, an
  optional exponent, or the word \<open>Infinity\<close>) or an unsigned binary, octal or
  hexadecimal integer; every other string is \<open>NaN\<close>.
\<close>

definition is_space :: "char \<Rightarrow> bool" where
  "is_space c = ((of_char c :: nat) \<in> {9, 10, 11, 12, 13, 32, 160})"

definition trim :: "string \<Rightarrow> string" where
  "trim s = rev (dropWhile is_space (rev (dropWhile is_space s)))"

definition radix_val :: "char \<Rightarrow> nat" where
  "radix_val c =
     (let n = (of_char c :: nat)
      in if 48 \<le> n \<and> n \<le> 57 then n - 48
         else if 97 \<le> n \<and> n \<le> 102 then n - 87
         else if 65 \<le> n \<and> n \<le> 70 then n - 55
         else 16)"

definition radix_literal :: "nat \<Rightarrow> string \<Rightarrow> jsnum" where
  "radix_literal r ds =
     (if ds \<noteq> [] \<and> list_all (\<lambda>c. radix_val c < r) ds
      then Num (of_nat (foldl (\<lambda>a c. r * a + radix_val c) 0 ds))
      else NaN)"

definition str_unsigned_decimal :: "string \<Rightarrow> jsnum" where
  "str_unsigned_decimal s =
     (if s = ''Infinity'' then PosInf
      else
        let ip = takeWhile is_digit s;
            r1 = dropWhile is_digit s;
            fp = (case r1 of [] \<Rightarrow> [] | c # t \<Rightarrow> if c = CHR ''.'' then takeWhile is_digit t else []);
            r2 = (case r1 of [] \<Rightarrow> [] | c # t \<Rightarrow> if c = CHR ''.'' then dropWhile is_digit t else r1);
            mant = of_nat (dec (ip @ fp)) / 10 ^ length fp
        in if ip = [] \<and> fp = [] then NaN
           else (case r2 of
                   [] \<Rightarrow> Num mant
                 | e # t \<Rightarrow>
                     if e = CHR ''e'' \<or> e = CHR ''E'' then
                       (let neg = (case t of [] \<Rightarrow> False | c # u \<Rightarrow> c = CHR ''-'');
                            ds = (case t of [] \<Rightarrow> []
                                  | c # u \<Rightarrow> if c = CHR ''+'' \<or> c = CHR ''-'' then u else t)
                        in if ds \<noteq> [] \<and> list_all is_digit ds
                           then Num (mant * pow10 (if neg then - int (dec ds) else int (dec ds)))
                           else NaN)
                     else NaN))"

fun js_neg :: "jsnum \<Rightarrow> jsnum" where
  "js_neg (Num a) = Num (- a)"
| "js_neg NaN = NaN"
| "js_neg PosInf = NegInf"
| "js_neg NegInf = PosInf"

definition str_decimal :: "string \<Rightarrow> jsnum" where
  "str_decimal s =
     (case s of
        [] \<Rightarrow> NaN
      | c # t \<Rightarrow>
          if c = CHR ''+'' then str_unsigned_decimal t
          else if c = CHR ''-'' then js_neg (str_unsigned_decimal t)
          else str_unsigned_decimal s)"

definition string_to_number :: "string \<Rightarrow> jsnum" where
  "string_to_number s =
     (let t = trim s
      in if t = [] then Num 0
         else if take 2 t = ''0x'' \<or> take 2 t = ''0X'' then radix_literal 16 (drop 2 t)
         else if take 2 t = ''0o'' \<or> take 2 t = ''0O'' then radix_literal 8 (drop 2 t)
         else if take 2 t = ''0b'' \<or> take 2 t = ''0B'' then radix_literal 2 (drop 2 t)
         else str_decimal t)"

fun to_number :: "string option \<Rightarrow> jsnum" where
  "to_number None = NaN"
| "to_number (Some s) = string_to_number s"

section \<open>Dates\<close>

text \<open>
  A \<open>Date\<close> holds a time value: a whole number of milliseconds since the epoch, at most
  \<open>8.64 \<times> 10\<^sup>1\<^sup>5\<close> in magnitude, or \<open>NaN\<close> (an invalid date, \<open>None\<close> here).
  \<open>new Date(v)\<close> for a number \<open>v\<close> clips it: a value that is not finite or is out of
  range gives the invalid date, any other is truncated towards zero.
\<close>

definition new_Date :: "jsnum \<Rightarrow> int option" where
  "new_Date v =
     (case v of
        Num a \<Rightarrow>
          if \<bar>a\<bar> \<le> 8640000000000000
          then Some (if 0 \<le> a then \<lfloor>a\<rfloor> else - \<lfloor>- a\<rfloor>)
          else None
      | _ \<Rightarrow> None)"

text \<open>
  The calendar date of a day number (days since 1970-01-01) in the proleptic Gregorian
  calendar, which is what \<open>YearFromTime\<close>, \<open>MonthFromTime\<close> and \<open>DateFromTime\<close>
  compute: year, month (1 to 12), day of the month.
\<close>

definition civil_from_days :: "int \<Rightarrow> int \<times> int \<times> int" where
  "civil_from_days days =
     (let z = days + 719468;
          era = z div 146097;
          doe = z - era * 146097;
          yoe = (doe - doe div 1460 + doe div 36524 - doe div 146096) div 365;
          doy = doe - (365 * yoe + yoe div 4 - yoe div 100);
          mp = (5 * doy + 2) div 153;
          d = doy - (153 * mp + 2) div 5 + 1;
          m = (if mp < 10 then mp + 3 else mp - 9);
          y = yoe + era * 400 + (if m \<le> 2 then 1 else 0)
      in (y, m, d))"

text \<open>A non-negative number in decimal, padded with zeros to a fixed width.\<close>

definition pad :: "nat \<Rightarrow> int \<Rightarrow> string" where
  "pad w n = map (\<lambda>i. char_of (48 + (nat n div 10 ^ i) mod 10)) (rev [0..<w])"

text \<open>
  \<open>date.toISOString()\<close> throws a \<open>RangeError\<close> on an invalid date (\<open>None\<close> here, the
  caller turns it into the error). On a valid one it prints
  \<open>YYYY-MM-DDTHH:mm:ss.sssZ\<close> in UTC; a year outside 0 to 9999 is printed with a sign
  and six digits.
\<close>

definition toISOString :: "int \<Rightarrow> string" where
  "toISOString t =
     (let day = t div 86400000;
          ms = t mod 86400000;
          ymd = civil_from_days day;
          y = fst ymd;
          year = (if 0 \<le> y \<and> y \<le> 9999 then pad 4 y
                  else if y < 0 then CHR ''-'' # pad 6 (- y)
                  else CHR ''+'' # pad 6 y)
      in year @ ''-'' @ pad 2 (fst (snd ymd)) @ ''-'' @ pad 2 (snd (snd ymd)) @ ''T''
         @ pad 2 (ms div 3600000) @ '':'' @ pad 2 (ms div 60000 mod 60) @ '':''
         @ pad 2 (ms div 1000 mod 60) @ ''.'' @ pad 3 (ms mod 1000) @ ''Z'')"

section \<open>The commit parser\<close>

subsection \<open>Data\<close>

text \<open>
  A parsed commit is an object with the seven properties that \<open>_parse\<close> gives it; the
  calculation adds \<open>time\<close>, and the equal strategy may add \<open>isMinCommitTime\<close>. An
  absent \<open>time\<close> is \<open>None\<close>, an absent flag is \<open>False\<close> (the code only tests the flag
  for truthiness). The parts of the description line beyond the first may be missing
  (\<open>undefined\<close>, \<open>None\<close> here). The field \<open>text_\<close> is the property \<open>text\<close>. The
  number \<open>lines\<close> is a sum of two runs of decimal digits, so a natural number.
\<close>

record commit =
  fullhash :: "string option"
  hash :: "string option"
  date :: int
  shortDate :: string
  text_ :: "string option"
  project :: "string option"
  lines :: nat
  time :: "jsnum option"
  isMinCommitTime :: bool

text \<open>
  One entry of \<open>rawCommits\<close>: a repository folder and its commits as text. The
  property \<open>commits\<close> of an entry is the field \<open>rawLog\<close>; the name \<open>commits\<close> is kept
  for the property of the result.
\<close>

record repositoriesCommits =
  gitFolder :: string
  rawLog :: "string list"

text \<open>
  The settings. \<open>startTime\<close> and \<open>endTime\<close> are dates, possibly invalid;
  \<open>equalRoundPrecision\<close> is an integer.
\<close>

record settings =
  startTime :: "int option"
  endTime :: "int option"
  maxHoursPerDay :: jsnum
  graduation :: jsnum
  minCommitTime :: jsnum
  equalRoundPrecision :: int

record calculatedCommit =
  commits :: "commit list"
  commitsLengthMap :: "(string \<times> nat) list"

text \<open>
  What stops a run: an exception thrown by a built-in, or \<open>process.exit(0)\<close> after the
  message \<open>No commits found.\<close> Console output is not modelled otherwise.
\<close>

datatype error = RangeError | TypeError | NoCommitsFound

subsection \<open>\<open>_parse\<close>\<close>

text \<open>The separator of path segments, \<open>path.sep\<close>, on a POSIX system.\<close>

definition path_sep :: char where
  "path_sep = CHR ''/''"

text \<open>
  Lines 38, 39 and 49: the count that the statistics line gives for a word, \<open>0\<close> when
  the pattern does not match; the statistics line itself may be \<open>undefined\<close>.
  \<open>parseInt\<close> of the digits that the pattern captured is their value.
\<close>

definition stat_count :: "string \<Rightarrow> string option \<Rightarrow> nat" where
  "stat_count word modifications =
     (case exec_digits word (to_string modifications) of None \<Rightarrow> 0 | Some ds \<Rightarrow> dec ds)"

text \<open>
  The callback of \<open>gitReport.commits.map\<close> (lines 35 to 51): one commit text to one
  object. The only built-in that can throw on a string input is \<open>toISOString\<close>, on an
  invalid date. A missing description line would make \<open>description.split\<close> a
  \<open>TypeError\<close>; \<open>split\<close> never returns an empty array, so that branch is never
  taken.
\<close>

definition parse_commit :: "string \<Rightarrow> string \<Rightarrow> error + commit" where
  "parse_commit folder block =
     (let parts = js_split (CHR 0x0A) block;
          modifications = at_index parts 1
      in case at_index parts 0 of
           None \<Rightarrow> Inl TypeError
         | Some description \<Rightarrow>
             (let fields = js_split (CHR '';'') description;
                  datetime = at_index fields 2;
                  deletions = stat_count '' deletions'' modifications;
                  insertions = stat_count '' insertions'' modifications
              in case new_Date (js_mul (to_number datetime) (Num 1000)) of
                   None \<Rightarrow> Inl RangeError
                 | Some t \<Rightarrow>
                     Inr \<lparr>fullhash = at_index fields 0,
                          hash = at_index fields 1,
                          date = t,
                          shortDate = (case js_split (CHR ''T'') (toISOString t) of
                                         [] \<Rightarrow> [] | p # ps \<Rightarrow> p),
                          text_ = at_index fields 3,
                          project = at_index (rev (js_split path_sep folder)) 1,
                          lines = insertions + deletions,
                          time = None,
                          isMinCommitTime = False\<rparr>))"

text \<open>An exception in one callback ends the whole \<open>reduce\<close>.\<close>

fun collect :: "(error + 'a) list \<Rightarrow> error + 'a list" where
  "collect [] = Inr []"
| "collect (Inl e # xs) = Inl e"
| "collect (Inr x # xs) = (case collect xs of Inl e \<Rightarrow> Inl e | Inr ys \<Rightarrow> Inr (x # ys))"

text \<open>The filter of line 52; a comparison with the time of an invalid date is false.\<close>

definition in_window :: "settings \<Rightarrow> commit \<Rightarrow> bool" where
  "in_window s c =
     (case startTime s of
        None \<Rightarrow> False
      | Some a \<Rightarrow> (case endTime s of None \<Rightarrow> False | Some b \<Rightarrow> a < date c \<and> date c < b))"

text \<open>
  \<open>_parse\<close>: all repositories' commits in one array, filtered to the window and sorted
  by date. \<open>Array.prototype.sort\<close> is stable, as \<open>sort_key\<close> is.
\<close>

definition parse :: "repositoriesCommits list \<Rightarrow> settings \<Rightarrow> error + commit list" where
  "parse rawCommits s =
     (case collect (concat (map (\<lambda>gitReport. map (parse_commit (gitFolder gitReport))
                                                  (rawLog gitReport)) rawCommits)) of
        Inl e \<Rightarrow> Inl e
      | Inr parsed \<Rightarrow> Inr (sort_key date (filter (in_window s) parsed)))"

subsection \<open>\<open>_calculation\<close>\<close>

text \<open>Lines 67 to 69: the commits of one commit's day, their lines, the commit's share.\<close>

definition dayCommits :: "commit list \<Rightarrow> commit \<Rightarrow> commit list" where
  "dayCommits cs filteredCommit =
     filter (\<lambda>commit. shortDate commit = shortDate filteredCommit) cs"

definition linesInDay :: "commit list \<Rightarrow> commit \<Rightarrow> nat" where
  "linesInDay cs filteredCommit =
     foldl (\<lambda>prev act. prev + lines act) 0 (dayCommits cs filteredCommit)"

definition ratio :: "commit list \<Rightarrow> commit \<Rightarrow> jsnum" where
  "ratio cs filteredCommit =
     js_div (Num (of_nat (lines filteredCommit))) (Num (of_nat (linesInDay cs filteredCommit)))"

text \<open>
  \<open>commitsLengthMap\<close> is a plain object: an association list in the order of
  insertion. \<open>!commitsLengthMap[key]\<close> holds for a missing key and for the value 0.
  The keys are dates as \<open>toISOString\<close> prints them; none of them is the name of a
  property that a plain object inherits.
\<close>

definition falsy_entry :: "(string \<times> nat) list \<Rightarrow> string \<Rightarrow> bool" where
  "falsy_entry m k = (case map_of m k of None \<Rightarrow> True | Some n \<Rightarrow> n = 0)"

text \<open>
  One turn of the \<open>forEach\<close> of lines 66 to 78, on the commit at index \<open>i\<close> of the
  array. The array is updated in place, so the commits of the day are read from the
  array as the earlier turns have left it.
\<close>

definition calc_step ::
  "(jsnum \<Rightarrow> jsnum) \<Rightarrow> commit list \<times> (string \<times> nat) list \<Rightarrow> nat
     \<Rightarrow> commit list \<times> (string \<times> nat) list" where
  "calc_step timeCalculationMethod st i =
     (let cs = fst st;
          m = snd st;
          filteredCommit = cs ! i;
          r = ratio cs filteredCommit;
          cs' = cs[i := filteredCommit\<lparr>time := Some (timeCalculationMethod r)\<rparr>];
          m' = (if falsy_entry m (shortDate filteredCommit)
                then AList.update (shortDate filteredCommit)
                       (length (dayCommits cs filteredCommit)) m
                else m)
      in (cs', m'))"

text \<open>
  \<open>_calculation\<close>: the loop over the parsed commits, then the test of line 81. With no
  commit the process exits (the loop has then done nothing).
\<close>

definition calculation ::
  "repositoriesCommits list \<Rightarrow> settings \<Rightarrow> (jsnum \<Rightarrow> jsnum) \<Rightarrow> error + calculatedCommit" where
  "calculation rawCommits s timeCalculationMethod =
     (case parse rawCommits s of
        Inl e \<Rightarrow> Inl e
      | Inr parsed \<Rightarrow>
          (let st = foldl (calc_step timeCalculationMethod) (parsed, []) [0..<length parsed]
           in if length (fst st) \<noteq> 0
              then Inr \<lparr>commits = fst st, commitsLengthMap = snd st\<rparr>
              else Inl NoCommitsFound))"

subsection \<open>The standard strategy\<close>

text \<open>
  The time strategy of lines 106 to 110,
  \<open>parseInt((ratio * maxHoursPerDay) / graduation, 10) * graduation || minCommitTime\<close>:
  the product binds tighter than \<open>||\<close>.
\<close>

definition standard_time :: "settings \<Rightarrow> jsnum \<Rightarrow> jsnum" where
  "standard_time s r =
     js_or (js_mul (parseInt (js_div (js_mul r (maxHoursPerDay s)) (graduation s)))
                   (graduation s))
           (minCommitTime s)"

definition standardCalculation ::
  "repositoriesCommits list \<Rightarrow> settings \<Rightarrow> error + calculatedCommit" where
  "standardCalculation rawCommits s = calculation rawCommits s (standard_time s)"

subsection \<open>The equal strategy\<close>

text \<open>The time strategy of lines 132 to 136, \<open>ratio * maxHoursPerDay\<close>.\<close>

definition equal_time :: "settings \<Rightarrow> jsnum \<Rightarrow> jsnum" where
  "equal_time s r = js_mul r (maxHoursPerDay s)"

text \<open>
  Modelled from the documentation of lodash: \<open>_.groupBy(commits, 'shortDate')\<close> is an
  object with one key for each distinct \<open>shortDate\<close>, in the order of first occurrence,
  whose value is the array of the commits with that \<open>shortDate\<close> in their order. The
  groups hold the very objects of the array \<open>commits\<close>; a group is given here by the
  indices of its commits in that array, and a change to a commit of a group is a change
  at its index.
\<close>

definition groupBy_shortDate :: "commit list \<Rightarrow> (string \<times> nat list) list" where
  "groupBy_shortDate cs =
     map (\<lambda>k. (k, filter (\<lambda>i. shortDate (cs ! i) = k) [0..<length cs]))
         (rev (remdups (rev (map shortDate cs))))"

text \<open>Lines 150 to 156: one turn of the first \<open>forEach\<close> over a group.\<close>

definition clamp_step :: "settings \<Rightarrow> commit list \<times> nat \<Rightarrow> nat \<Rightarrow> commit list \<times> nat" where
  "clamp_step s st i =
     (let h = fst st; minCommitTimeCommits = snd st; c = h ! i
      in if js_lt (num_of (time c)) (minCommitTime s)
         then (h[i := c\<lparr>time := Some (minCommitTime s), isMinCommitTime := True\<rparr>],
               minCommitTimeCommits + 1)
         else (h, minCommitTimeCommits))"

text \<open>Lines 161 to 165: one turn of the second \<open>forEach\<close>.\<close>

definition rescale_step :: "settings \<Rightarrow> jsnum \<Rightarrow> commit list \<Rightarrow> nat \<Rightarrow> commit list" where
  "rescale_step s newMaxHoursPerDay h i =
     (let c = h ! i
      in if \<not> isMinCommitTime c
         then h[i := c\<lparr>time := Some (js_mul (js_div (num_of (time c)) (maxHoursPerDay s))
                                            newMaxHoursPerDay)\<rparr>]
         else h)"

text \<open>Lines 168 to 170: one turn of the third \<open>forEach\<close>.\<close>

definition round_step :: "settings \<Rightarrow> commit list \<Rightarrow> nat \<Rightarrow> commit list" where
  "round_step s h i =
     (let c = h ! i
      in h[i := c\<lparr>time := Some (lodash_round
                                   (lodash_round (num_of (time c)) (equalRoundPrecision s + 1))
                                   (equalRoundPrecision s))\<rparr>])"

text \<open>Lines 146 to 170: the body of the loop over the groups, for one group.\<close>

definition equal_day :: "settings \<Rightarrow> commit list \<Rightarrow> nat list \<Rightarrow> commit list" where
  "equal_day s h idxs =
     (let st = foldl (clamp_step s) (h, 0) idxs;
          minCommitTimeCommits = snd st;
          newMaxHoursPerDay =
            js_sub (maxHoursPerDay s)
                   (js_mul (Num (of_nat minCommitTimeCommits)) (minCommitTime s));
          h2 = (if minCommitTimeCommits \<noteq> 0
                then foldl (rescale_step s newMaxHoursPerDay) (fst st) idxs
                else fst st)
      in foldl (round_step s) h2 idxs)"

text \<open>
  \<open>equalCalculation\<close>: the calculation with the proportional time, then the loop over
  the groups in the order of their keys; the result is the object that the calculation
  returned, with its commits changed in place.
\<close>

definition equalCalculation ::
  "repositoriesCommits list \<Rightarrow> settings \<Rightarrow> error + calculatedCommit" where
  "equalCalculation rawCommits s =
     (case calculation rawCommits s (equal_time s) of
        Inl e \<Rightarrow> Inl e
      | Inr c \<Rightarrow>
          Inr (c\<lparr>commits := foldl (equal_day s) (commits c)
                                 (map snd (groupBy_shortDate (commits c)))\<rparr>))"

section \<open>Notions used in the statements\<close>

text \<open>
  The commit as \<open>_parse\<close> made it: \<open>strip c\<close> is \<open>c\<close> with the property \<open>time\<close> and the
  flag \<open>isMinCommitTime\<close> removed. Two commits with the same \<open>strip\<close> agree on the
  seven parsed properties.
\<close>

definition strip :: "commit \<Rightarrow> commit" where
  "strip c = c\<lparr>time := None, isMinCommitTime := False\<rparr>"

text \<open>The number of commits of a day \<open>d\<close> in a list.\<close>

definition day_count :: "commit list \<Rightarrow> string \<Rightarrow> nat" where
  "day_count cs d = length (filter (\<lambda>c. shortDate c = d) cs)"

text \<open>
  The fields of the description line of a commit text, and what makes its third field,
  the epoch seconds, a valid date: \<open>valid_epoch\<close> is the test that \<open>parse_commit\<close>
  makes before \<open>toISOString\<close>; \<open>digits_epoch\<close> is the form git prints, a run of
  decimal digits, of a value up to the largest time a \<open>Date\<close> holds.
\<close>

definition description_fields :: "string \<Rightarrow> string list" where
  "description_fields block =
     (case at_index (js_split (CHR 0x0A) block) 0 of
        None \<Rightarrow> []
      | Some description \<Rightarrow> js_split (CHR '';'') description)"

definition valid_epoch :: "string \<Rightarrow> bool" where
  "valid_epoch block =
     (new_Date (js_mul (to_number (at_index (description_fields block) 2)) (Num 1000)) \<noteq> None)"

definition digits_epoch :: "string \<Rightarrow> bool" where
  "digits_epoch block =
     (case at_index (description_fields block) 2 of
        None \<Rightarrow> False
      | Some ds \<Rightarrow> ds \<noteq> [] \<and> list_all is_digit ds \<and> dec ds \<le> 8640000000000)"



text \<open>
  The three loops of the equal strategy, each as the change it makes to one commit, and
  their composition \<open>day_final s k\<close> for a day in which \<open>k\<close> commits were below the
  minimum; \<open>upd_at f h i\<close> applies a change at one index; \<open>below_min\<close> counts the
  commits of a group below the minimum; \<open>day_group\<close> is the group of a key.
\<close>

definition upd_at :: "(commit \<Rightarrow> commit) \<Rightarrow> commit list \<Rightarrow> nat \<Rightarrow> commit list" where
  "upd_at f h i = h[i := f (h ! i)]"

definition clamp_c :: "settings \<Rightarrow> commit \<Rightarrow> commit" where
  "clamp_c s c =
     (if js_lt (num_of (time c)) (minCommitTime s)
      then c\<lparr>time := Some (minCommitTime s), isMinCommitTime := True\<rparr> else c)"

definition rescale_c :: "settings \<Rightarrow> jsnum \<Rightarrow> commit \<Rightarrow> commit" where
  "rescale_c s newMax c =
     (if \<not> isMinCommitTime c
      then c\<lparr>time := Some (js_mul (js_div (num_of (time c)) (maxHoursPerDay s)) newMax)\<rparr>
      else c)"

definition round2 :: "settings \<Rightarrow> jsnum \<Rightarrow> jsnum" where
  "round2 s x = lodash_round (lodash_round x (equalRoundPrecision s + 1)) (equalRoundPrecision s)"

definition round_c :: "settings \<Rightarrow> commit \<Rightarrow> commit" where
  "round_c s c = c\<lparr>time := Some (round2 s (num_of (time c)))\<rparr>"

definition below_min :: "settings \<Rightarrow> commit list \<Rightarrow> nat list \<Rightarrow> nat" where
  "below_min s h idxs =
     length (filter (\<lambda>i. js_lt (num_of (time (h ! i))) (minCommitTime s)) idxs)"

definition day_final :: "settings \<Rightarrow> nat \<Rightarrow> commit \<Rightarrow> commit" where
  "day_final s k c =
     round_c s
       (if k \<noteq> 0
        then rescale_c s (js_sub (maxHoursPerDay s) (js_mul (Num (of_nat k)) (minCommitTime s)))
               (clamp_c s c)
        else clamp_c s c)"

definition day_group :: "(nat \<Rightarrow> string) \<Rightarrow> nat \<Rightarrow> string \<Rightarrow> nat list" where
  "day_group key n k = filter (\<lambda>i. key i = k) [0..<n]"


section \<open>Example inputs\<close>

text \<open>
  A commit text is a description line and a statistics line, as
  \<open>git log --shortstat\<close> prints them with the format \<open>%H;%h;%ct;%s\<close>.
\<close>

definition two_lines :: "string \<Rightarrow> string \<Rightarrow> string" where
  "two_lines description modifications = description @ [CHR 0x0A] @ modifications"

text \<open>
  Two repositories. The window of \<open>ex_settings\<close> leaves out the commit of 2017; the
  other three are parsed to \<open>ex_c1\<close>, \<open>ex_c2\<close> (both of 2020-09-13) and \<open>ex_c3\<close>
  (of 2020-09-14).
\<close>

definition ex_settings :: settings where
  "ex_settings =
     \<lparr>startTime = Some 1599000000000, endTime = Some 1601000000000,
      maxHoursPerDay = Num 8, graduation = Num (1 / 4), minCommitTime = Num (1 / 4),
      equalRoundPrecision = 2\<rparr>"

definition ex_raw :: "repositoriesCommits list" where
  "ex_raw =
     [\<lparr>gitFolder = ''/home/dev/work/api/.git'',
       rawLog =
         [two_lines ''9fceb02d0ae598e95dc970b74767f19372d61af8;9fceb02;1600000100;Add endpoint''
                '' 4 files changed, 80 insertions(+), 10 deletions(-)'',
          two_lines ''1b6d3f2a8c0e4f5a9b7c6d5e4f3a2b1c0d9e8f7a;1b6d3f2;1600000000;Fix typo''
                '' 1 file changed, 10 insertions(+)'',
          two_lines ''0000000000000000000000000000000000000000;0000000;1500000000;Old work''
                '' 1 file changed, 3 insertions(+)'']\<rparr>,
      \<lparr>gitFolder = ''/home/dev/work/web/.git'',
       rawLog =
         [two_lines ''7c2a9e4b1d3f5a6b8c0d2e4f6a8b0c1d3e5f7a9b;7c2a9e4;1600090000;Drop old styles''
                '' 2 files changed, 5 deletions(-)'']\<rparr>]"

definition ex_c1 :: commit where
  "ex_c1 = \<lparr>fullhash = Some ''1b6d3f2a8c0e4f5a9b7c6d5e4f3a2b1c0d9e8f7a'', hash = Some ''1b6d3f2'',
            date = 1600000000000, shortDate = ''2020-09-13'', text_ = Some ''Fix typo'',
            project = Some ''api'', lines = 10, time = None, isMinCommitTime = False\<rparr>"

definition ex_c2 :: commit where
  "ex_c2 = \<lparr>fullhash = Some ''9fceb02d0ae598e95dc970b74767f19372d61af8'', hash = Some ''9fceb02'',
            date = 1600000100000, shortDate = ''2020-09-13'', text_ = Some ''Add endpoint'',
            project = Some ''api'', lines = 90, time = None, isMinCommitTime = False\<rparr>"

definition ex_c3 :: commit where
  "ex_c3 = \<lparr>fullhash = Some ''7c2a9e4b1d3f5a6b8c0d2e4f6a8b0c1d3e5f7a9b'', hash = Some ''7c2a9e4'',
            date = 1600090000000, shortDate = ''2020-09-14'', text_ = Some ''Drop old styles'',
            project = Some ''web'', lines = 5, time = None, isMinCommitTime = False\<rparr>"

text \<open>A commit text with no epoch seconds.\<close>

definition ex_no_epoch :: "repositoriesCommits list" where
  "ex_no_epoch =
     [\<lparr>gitFolder = ''/home/dev/work/api/.git'',
       rawLog = [two_lines ''1b6d3f2a8c0e4f5a9b7c6d5e4f3a2b1c0d9e8f7a;1b6d3f2''
                       '' 1 file changed, 10 insertions(+)'']\<rparr>]"

text \<open>A minimum of an eighth of an hour, with times rounded to one decimal digit.\<close>

definition ex_round_settings :: settings where
  "ex_round_settings = ex_settings\<lparr>minCommitTime := Num (1 / 8), equalRoundPrecision := 1\<rparr>"

definition ex_small_big :: "repositoriesCommits list" where
  "ex_small_big =
     [\<lparr>gitFolder = ''/home/dev/work/api/.git'',
       rawLog =
         [two_lines ''1b6d3f2a8c0e4f5a9b7c6d5e4f3a2b1c0d9e8f7a;1b6d3f2;1600000000;Fix typo''
                '' 1 file changed, 2 insertions(+)'',
          two_lines ''9fceb02d0ae598e95dc970b74767f19372d61af8;9fceb02;1600000100;Add endpoint''
                '' 4 files changed, 150 insertions(+), 48 deletions(-)'']\<rparr>]"


text \<open>A day of 128 000 000 changed lines, two of them in the first commit.\<close>

definition ex_large_day :: "repositoriesCommits list" where
  "ex_large_day =
     [\<lparr>gitFolder = ''/home/dev/work/api/.git'',
       rawLog =
         [two_lines ''1b6d3f2a8c0e4f5a9b7c6d5e4f3a2b1c0d9e8f7a;1b6d3f2;1600000000;Fix typo''
                '' 1 file changed, 2 insertions(+)'',
          two_lines ''9fceb02d0ae598e95dc970b74767f19372d61af8;9fceb02;1600000100;Import data set''
                '' 40 files changed, 127999998 insertions(+)'']\<rparr>]"

text \<open>A day with one commit that changes no line: a merge, which has no statistics line.\<close>

definition ex_merge_only :: "repositoriesCommits list" where
  "ex_merge_only =
     [\<lparr>gitFolder = ''/home/dev/work/api/.git'',
       rawLog = [''1b6d3f2a8c0e4f5a9b7c6d5e4f3a2b1c0d9e8f7a;1b6d3f2;1600000000;Merge branch dev'']\<rparr>]"

text \<open>A day of five small commits and a large one.\<close>

definition ex_busy_day :: "repositoriesCommits list" where
  "ex_busy_day =
     [\<lparr>gitFolder = ''/home/dev/work/api/.git'',
       rawLog =
         [two_lines ''a1;a1;1600000000;Fix typo'' '' 1 file changed, 2 insertions(+)'',
          two_lines ''a2;a2;1600000100;Fix typo'' '' 1 file changed, 2 insertions(+)'',
          two_lines ''a3;a3;1600000200;Fix typo'' '' 1 file changed, 2 insertions(+)'',
          two_lines ''a4;a4;1600000300;Fix typo'' '' 1 file changed, 2 insertions(+)'',
          two_lines ''a5;a5;1600000400;Fix typo'' '' 1 file changed, 2 insertions(+)'',
          two_lines ''a6;a6;1600000500;Add endpoint'' '' 4 files changed, 150 insertions(+), 40 deletions(-)'']\<rparr>]"

section \<open>Lemmas\<close>

subsection \<open>\<open>_parse\<close>\<close>

lemma collect_Inl: "collect xs = Inl e \<Longrightarrow> Inl e \<in> set xs"
  by (induction xs rule: collect.induct) (auto split: sum.splits)

lemma collect_Inr: "collect xs = Inr ys \<Longrightarrow> xs = map Inr ys"
  by (induction xs arbitrary: ys rule: collect.induct) (auto split: sum.splits)

lemma collect_total: "(\<And>x. x \<in> set xs \<Longrightarrow> \<exists>y. x = Inr y) \<Longrightarrow> \<exists>ys. collect xs = Inr ys"
proof (induction xs)
  case Nil
  show ?case by simp
next
  case (Cons x xs)
  from Cons.prems obtain y where x: "x = Inr y" by auto
  from Cons obtain ys where "collect xs = Inr ys" by auto
  with x show ?case by simp
qed

lemma js_split_nonempty: "js_split sep s \<noteq> []"
  by (induction s) (auto split: list.splits)

lemma parse_commit_error: "parse_commit folder block = Inl e \<Longrightarrow> e = RangeError"
  using js_split_nonempty [of "CHR 0x0A" block]
  by (auto simp: parse_commit_def Let_def at_index_def split: option.splits if_splits)

lemma parse_commit_fresh: "parse_commit folder block = Inr c \<Longrightarrow> strip c = c"
  by (auto simp: parse_commit_def Let_def strip_def split: option.splits)

lemma parse_error:
  assumes "parse raw s = Inl e"
  shows "e = RangeError"
proof -
  from assms
  have "collect (concat (map (\<lambda>g. map (parse_commit (gitFolder g)) (rawLog g)) raw)) = Inl e"
    by (auto simp: parse_def split: sum.splits)
  then have "Inl e \<in> set (concat (map (\<lambda>g. map (parse_commit (gitFolder g)) (rawLog g)) raw))"
    by (rule collect_Inl)
  then obtain folder block where "parse_commit folder block = Inl e" by auto
  then show ?thesis by (rule parse_commit_error)
qed

lemma parse_fresh_elem:
  assumes "parse raw s = Inr cs" "c \<in> set cs"
  shows "strip c = c"
proof -
  from assms obtain parsed where
    col: "collect (concat (map (\<lambda>g. map (parse_commit (gitFolder g)) (rawLog g)) raw)) = Inr parsed"
    and cs: "cs = sort_key date (filter (in_window s) parsed)"
    by (auto simp: parse_def split: sum.splits)
  from assms(2) cs have "c \<in> set parsed" by simp
  with collect_Inr [OF col]
  have "Inr c \<in> set (concat (map (\<lambda>g. map (parse_commit (gitFolder g)) (rawLog g)) raw))"
    by simp
  then obtain folder block where "parse_commit folder block = Inr c" by auto
  then show ?thesis by (rule parse_commit_fresh)
qed

lemma parse_fresh:
  assumes "parse raw s = Inr cs"
  shows "map strip cs = cs"
  using parse_fresh_elem [OF assms] by (simp add: map_idI)

lemma parse_window:
  assumes "parse raw s = Inr cs" "c \<in> set cs"
  shows "in_window s c"
  using assms by (auto simp: parse_def split: sum.splits)

lemma parse_sorted:
  assumes "parse raw s = Inr cs"
  shows "sorted (map date cs)"
  using assms by (auto simp: parse_def split: sum.splits)

lemma parse_commit_Inr_iff: "(\<exists>c. parse_commit folder b = Inr c) \<longleftrightarrow> valid_epoch b"
  using js_split_nonempty [of "CHR 0x0A" b]
  by (auto simp: parse_commit_def valid_epoch_def description_fields_def Let_def at_index_def
      split: option.splits)

lemma parse_commit_lines:
  "parse_commit folder b = Inr c \<Longrightarrow>
   lines c = stat_count '' insertions'' (at_index (js_split (CHR 0x0A) b) 1)
           + stat_count '' deletions'' (at_index (js_split (CHR 0x0A) b) 1)"
  by (auto simp: parse_commit_def Let_def split: option.splits)

lemma parse_total_iff:
  "(\<exists>cs. parse raw s = Inr cs) \<longleftrightarrow> list_all (\<lambda>g. list_all valid_epoch (rawLog g)) raw"
proof
  assume "\<exists>cs. parse raw s = Inr cs"
  then obtain parsed where
    col: "collect (concat (map (\<lambda>g. map (parse_commit (gitFolder g)) (rawLog g)) raw)) = Inr parsed"
    by (auto simp: parse_def split: sum.splits)
  have "valid_epoch b" if "g \<in> set raw" "b \<in> set (rawLog g)" for g b
  proof -
    from that have "parse_commit (gitFolder g) b \<in>
        set (concat (map (\<lambda>g. map (parse_commit (gitFolder g)) (rawLog g)) raw))" by auto
    with collect_Inr [OF col] have "\<exists>c. parse_commit (gitFolder g) b = Inr c" by auto
    then show ?thesis by (simp add: parse_commit_Inr_iff)
  qed
  then show "list_all (\<lambda>g. list_all valid_epoch (rawLog g)) raw"
    by (simp add: list_all_iff)
next
  assume a: "list_all (\<lambda>g. list_all valid_epoch (rawLog g)) raw"
  have "\<exists>y. x = Inr y"
    if "x \<in> set (concat (map (\<lambda>g. map (parse_commit (gitFolder g)) (rawLog g)) raw))" for x
  proof -
    from that obtain g b where "g \<in> set raw" "b \<in> set (rawLog g)"
      and x: "x = parse_commit (gitFolder g) b" by auto
    with a have "valid_epoch b" by (simp add: list_all_iff)
    then show ?thesis unfolding x by (simp add: parse_commit_Inr_iff)
  qed
  then have "\<exists>ys. collect (concat (map (\<lambda>g. map (parse_commit (gitFolder g)) (rawLog g)) raw)) = Inr ys"
    by (rule collect_total)
  then show "\<exists>cs. parse raw s = Inr cs" by (auto simp: parse_def)
qed

lemma digit_cases:
  "is_digit c \<longleftrightarrow> c = CHR ''0'' \<or> c = CHR ''1'' \<or> c = CHR ''2'' \<or> c = CHR ''3'' \<or> c = CHR ''4''
     \<or> c = CHR ''5'' \<or> c = CHR ''6'' \<or> c = CHR ''7'' \<or> c = CHR ''8'' \<or> c = CHR ''9''"
  by (auto simp: is_digit_def)

lemma digit_not_space: "is_digit c \<Longrightarrow> \<not> is_space c"
  by (auto simp: digit_cases is_space_def)

lemma trim_digits:
  assumes "ds \<noteq> []" "list_all is_digit ds"
  shows "trim ds = ds"
proof -
  from assms obtain c cs where ds: "ds = c # cs" by (cases ds) auto
  with assms(2) have "\<not> is_space c" by (simp add: digit_not_space)
  with ds have 1: "dropWhile is_space ds = ds" by simp
  from assms obtain ys y where r: "ds = ys @ [y]" by (cases ds rule: rev_cases) auto
  with assms(2) have "\<not> is_space y" by (simp add: digit_not_space)
  with r have "dropWhile is_space (rev ds) = rev ds" by simp
  with 1 show ?thesis by (simp add: trim_def)
qed

lemma take2_digits:
  assumes "list_all is_digit ds" "\<not> is_digit x"
  shows "take 2 ds \<noteq> [a, x]"
proof
  assume "take 2 ds = [a, x]"
  then have "x \<in> set ds" by (metis in_set_takeD list.set_intros(1) list.set_intros(2))
  with assms show False by (simp add: list_all_iff)
qed

lemma str_unsigned_decimal_digits:
  assumes "ds \<noteq> []" "list_all is_digit ds"
  shows "str_unsigned_decimal ds = Num (of_nat (dec ds))"
proof -
  from assms have "is_digit (hd ds)" by (cases ds) auto
  then have "ds \<noteq> ''Infinity''" by (auto simp: digit_cases)
  then have ni: "(ds = ''Infinity'') = False" by simp
  have tw: "takeWhile is_digit ds = ds" and dw: "dropWhile is_digit ds = []"
    using assms(2) by (simp_all add: list_all_iff)
  show ?thesis
    unfolding str_unsigned_decimal_def Let_def tw dw ni using assms(1) by simp
qed

lemma string_to_number_digits:
  assumes "ds \<noteq> []" "list_all is_digit ds"
  shows "string_to_number ds = Num (of_nat (dec ds))"
proof -
  have nd: "\<not> is_digit CHR ''x''" "\<not> is_digit CHR ''X''" "\<not> is_digit CHR ''o''"
    "\<not> is_digit CHR ''O''" "\<not> is_digit CHR ''b''" "\<not> is_digit CHR ''B''"
    "\<not> is_digit CHR ''+''" "\<not> is_digit CHR ''-''"
    by (simp_all add: digit_cases)
  from assms obtain c cs where ds: "ds = c # cs" by (cases ds) auto
  with assms(2) nd have "c \<noteq> CHR ''+''" "c \<noteq> CHR ''-''" by auto
  with ds have "str_decimal ds = str_unsigned_decimal ds" by (simp add: str_decimal_def)
  then show ?thesis
    using assms nd take2_digits [OF assms(2)]
    by (simp add: string_to_number_def trim_digits str_unsigned_decimal_digits)
qed

lemma digits_epoch_valid: "digits_epoch b \<Longrightarrow> valid_epoch b"
  by (auto simp: digits_epoch_def valid_epoch_def string_to_number_digits new_Date_def
      split: option.splits)

lemma js_split_no_sep: "sep \<notin> set s \<Longrightarrow> js_split sep s = [s]"
  by (induction s) auto

lemma exec_digits_no_digit: "list_all (\<lambda>x. \<not> is_digit x) st \<Longrightarrow> exec_digits word st = None"
  by (induction st) simp_all

lemma exec_digits_undefined: "exec_digits word ''undefined'' = None"
  by (rule exec_digits_no_digit) (simp add: is_digit_def)

lemma stat_count_absent: "stat_count word None = 0"
  unfolding stat_count_def to_string.simps exec_digits_undefined by simp

lemma stat_count_no_digit: "list_all (\<lambda>x. \<not> is_digit x) st \<Longrightarrow> stat_count word (Some st) = 0"
  by (simp add: stat_count_def exec_digits_no_digit)

lemma stat_count_no_match:
  "exec_digits word (to_string m) = None \<Longrightarrow> stat_count word m = 0"
  by (simp add: stat_count_def)

subsection \<open>The loop of \<open>_calculation\<close>\<close>

lemma foldl_lines_sum:
  "foldl (\<lambda>prev act. prev + lines act) n xs = n + sum_list (map lines xs)"
  by (induction xs arbitrary: n) simp_all

lemma linesInDay_sum: "linesInDay cs c = sum_list (map lines (dayCommits cs c))"
  by (simp add: linesInDay_def foldl_lines_sum)

lemma lines_le_linesInDay:
  assumes "c \<in> set cs"
  shows "lines c \<le> linesInDay cs c"
proof -
  from assms have "c \<in> set (dayCommits cs c)" by (simp add: dayCommits_def)
  then have "lines c \<le> sum_list (map lines (dayCommits cs c))"
    by (simp add: member_le_sum_list)
  then show ?thesis by (simp add: linesInDay_sum)
qed

lemma ratio_value:
  assumes "c \<in> set cs"
  shows "(linesInDay cs c = 0 \<longrightarrow> ratio cs c = NaN) \<and>
         (0 < linesInDay cs c \<longrightarrow>
            ratio cs c = Num (of_nat (lines c) / of_nat (linesInDay cs c)) \<and>
            0 \<le> (of_nat (lines c) / of_nat (linesInDay cs c) :: rat) \<and>
            (of_nat (lines c) / of_nat (linesInDay cs c) :: rat) \<le> 1)"
proof -
  from assms have le: "lines c \<le> linesInDay cs c" by (rule lines_le_linesInDay)
  show ?thesis
  proof (cases "linesInDay cs c = 0")
    case True
    with le have "lines c = 0" by simp
    with True show ?thesis by (simp add: ratio_def signed_inf_def)
  next
    case False
    then have pos: "0 < linesInDay cs c" by simp
    have "(of_nat (lines c) :: rat) \<le> of_nat (linesInDay cs c)" using le by simp
    with pos show ?thesis by (simp add: ratio_def)
  qed
qed

lemma strip_time_upd [simp]: "strip (c\<lparr>time := t\<rparr>) = strip c"
  by (simp add: strip_def)

lemma strip_flag_upd [simp]: "strip (c\<lparr>isMinCommitTime := b\<rparr>) = strip c"
  by (simp add: strip_def)

lemma strip_fields [simp]: "shortDate (strip c) = shortDate c" "lines (strip c) = lines c"
  by (simp_all add: strip_def)

lemma strip_date [simp]: "date (strip c) = date c"
  by (simp add: strip_def)

lemma map_strip_update:
  assumes a: "strip y = strip (h ! i)"
  shows "map strip (h[i := y]) = map strip h"
proof (rule nth_equalityI)
  show "length (map strip (h[i := y])) = length (map strip h)" by simp
next
  fix j
  assume "j < length (map strip (h[i := y]))"
  then have j: "j < length h" by simp
  show "map strip (h[i := y]) ! j = map strip h ! j"
  proof (cases "j = i")
    case True
    with j a show ?thesis by simp
  next
    case False
    with j show ?thesis by simp
  qed
qed

lemma same_strip_nth:
  "map strip h = map strip h' \<Longrightarrow> i < length h \<Longrightarrow> strip (h ! i) = strip (h' ! i)"
  by (metis length_map nth_map)

lemma same_strip_shortDate:
  "map strip h = map strip h' \<Longrightarrow> map shortDate h = map shortDate h'"
proof -
  assume a: "map strip h = map strip h'"
  have "map shortDate h = map shortDate (map strip h)" by (simp add: o_def)
  also have "\<dots> = map shortDate (map strip h')" using a by simp
  also have "\<dots> = map shortDate h'" by (simp add: o_def)
  finally show ?thesis .
qed

lemma foldl_lines_strip:
  "foldl (\<lambda>prev act. prev + lines act) n (map strip xs) = foldl (\<lambda>prev act. prev + lines act) n xs"
  by (induction xs arbitrary: n) simp_all

lemma dayCommits_strip: "dayCommits (map strip h) (strip c) = map strip (dayCommits h c)"
  by (simp add: dayCommits_def filter_map o_def)

lemma ratio_strip: "ratio (map strip h) (strip c) = ratio h c"
  by (simp add: ratio_def linesInDay_def dayCommits_strip foldl_lines_strip)

lemma ratio_cong:
  "map strip h = map strip h' \<Longrightarrow> strip c = strip c' \<Longrightarrow> ratio h c = ratio h' c'"
  by (metis ratio_strip)

lemma calc_step_strip: "map strip (fst (calc_step tcm st i)) = map strip (fst st)"
  by (simp add: calc_step_def Let_def map_strip_update)

lemma foldl_calc_strip: "map strip (fst (foldl (calc_step tcm) st idxs)) = map strip (fst st)"
  by (induction idxs arbitrary: st) (simp_all add: calc_step_strip)

lemma foldl_calc_length: "length (fst (foldl (calc_step tcm) st idxs)) = length (fst st)"
  using foldl_calc_strip [of tcm st idxs] by (metis length_map)

lemma fst_calc_step:
  "fst (calc_step tcm st i) =
   (fst st)[i := (fst st ! i)\<lparr>time := Some (tcm (ratio (fst st) (fst st ! i)))\<rparr>]"
  by (simp add: calc_step_def Let_def)

lemma foldl_calc_nth:
  assumes "i < length (fst st)"
  shows "fst (foldl (calc_step tcm) st idxs) ! i =
         (if i \<in> set idxs then (fst st ! i)\<lparr>time := Some (tcm (ratio (fst st) (fst st ! i)))\<rparr>
          else fst st ! i)"
proof (induction idxs rule: rev_induct)
  case Nil
  show ?case by simp
next
  case (snoc j idxs)
  define st' where "st' = foldl (calc_step tcm) st idxs"
  have same: "map strip (fst st') = map strip (fst st)"
    unfolding st'_def by (rule foldl_calc_strip)
  have len: "length (fst st') = length (fst st)"
    unfolding st'_def by (rule foldl_calc_length)
  have IH: "fst st' ! i =
         (if i \<in> set idxs then (fst st ! i)\<lparr>time := Some (tcm (ratio (fst st) (fst st ! i)))\<rparr>
          else fst st ! i)"
    unfolding st'_def by (rule snoc.IH)
  have step: "foldl (calc_step tcm) st (idxs @ [j]) = calc_step tcm st' j"
    by (simp add: st'_def)
  show ?case
  proof (cases "j = i")
    case True
    have s: "strip (fst st' ! i) = strip (fst st ! i)"
      using same by (rule same_strip_nth) (simp add: len assms)
    have r: "ratio (fst st') (fst st' ! i) = ratio (fst st) (fst st ! i)"
      using same s by (rule ratio_cong)
    have u: "(fst st' ! i)\<lparr>time := t\<rparr> = (fst st ! i)\<lparr>time := t\<rparr>" for t
      using IH by (simp split: if_splits)
    show ?thesis
      unfolding step fst_calc_step using True assms len r u by simp
  next
    case False
    then show ?thesis
      unfolding step fst_calc_step using IH by simp
  qed
qed

lemma calc_loop_commits:
  "fst (foldl (calc_step tcm) (cs, m) [0..<length cs]) =
   map (\<lambda>c. c\<lparr>time := Some (tcm (ratio cs c))\<rparr>) cs"
  by (rule nth_equalityI) (simp_all add: foldl_calc_length foldl_calc_nth)

lemma day_count_cong:
  assumes "map strip h = map strip h'"
  shows "day_count h d = day_count h' d"
proof -
  from assms have a: "map shortDate h = map shortDate h'" by (rule same_strip_shortDate)
  have e: "day_count h d = length (filter (\<lambda>k. k = d) (map shortDate h))" for h
    by (simp add: day_count_def filter_map o_def)
  show ?thesis unfolding e a by (rule refl)
qed

lemma calc_step_map:
  assumes inv: "\<And>d. map_of (snd st) d = (if d \<in> S then Some (day_count (fst st) d) else None)"
  shows "map_of (snd (calc_step tcm st i)) d =
         (if d \<in> insert (shortDate (fst st ! i)) S then Some (day_count (fst st) d) else None)"
proof -
  let ?k = "shortDate (fst st ! i)"
  have len: "length (dayCommits (fst st) (fst st ! i)) = day_count (fst st) ?k"
    by (simp add: dayCommits_def day_count_def)
  show ?thesis
  proof (cases "falsy_entry (snd st) ?k")
    case True
    then have "snd (calc_step tcm st i) = AList.update ?k (day_count (fst st) ?k) (snd st)"
      by (simp add: calc_step_def Let_def len)
    then show ?thesis using inv [of d] by (simp add: update_conv')
  next
    case False
    then have m: "snd (calc_step tcm st i) = snd st"
      by (simp add: calc_step_def Let_def)
    from False obtain n where "map_of (snd st) ?k = Some n"
      by (auto simp: falsy_entry_def split: option.splits)
    with inv [of ?k] have "?k \<in> S" by (simp split: if_splits)
    then show ?thesis using inv [of d] by (simp add: m insert_absorb)
  qed
qed

lemma foldl_calc_map:
  assumes "\<And>d. map_of (snd st) d = (if d \<in> S then Some (day_count (fst st) d) else None)"
    and "\<And>i. i \<in> set idxs \<Longrightarrow> i < length (fst st)"
  shows "map_of (snd (foldl (calc_step tcm) st idxs)) d =
         (if d \<in> S \<union> (\<lambda>i. shortDate (fst st ! i)) ` set idxs
          then Some (day_count (fst st) d) else None)"
  using assms
proof (induction idxs arbitrary: st S)
  case Nil
  then show ?case by simp
next
  case (Cons i idxs)
  define st' where "st' = calc_step tcm st i"
  have same: "map strip (fst st') = map strip (fst st)"
    unfolding st'_def by (rule calc_step_strip)
  then have len: "length (fst st') = length (fst st)" by (metis length_map)
  have dc: "day_count (fst st') d = day_count (fst st) d" for d
    using same by (rule day_count_cong)
  have sd: "shortDate (fst st' ! j) = shortDate (fst st ! j)" if "j < length (fst st)" for j
    using same_strip_nth [OF same, of j] that len by (metis strip_fields(1))
  have inv': "map_of (snd st') d =
      (if d \<in> insert (shortDate (fst st ! i)) S then Some (day_count (fst st') d) else None)" for d
    unfolding st'_def dc [unfolded st'_def] using Cons.prems(1) by (rule calc_step_map)
  have rng: "j < length (fst st')" if "j \<in> set idxs" for j
    using Cons.prems(2) [of j] that len by simp
  have img: "(\<lambda>j. shortDate (fst st' ! j)) ` set idxs = (\<lambda>j. shortDate (fst st ! j)) ` set idxs"
    using rng len by (auto simp: sd intro!: image_cong)
  have "map_of (snd (foldl (calc_step tcm) st' idxs)) d =
         (if d \<in> insert (shortDate (fst st ! i)) S \<union> (\<lambda>i. shortDate (fst st' ! i)) ` set idxs
          then Some (day_count (fst st') d) else None)"
    using inv' rng by (rule Cons.IH)
  then show ?case
    by (simp add: st'_def [symmetric] img dc)
qed

lemma calculation_Inr:
  assumes "parse raw s = Inr cs" "cs \<noteq> []"
  shows "calculation raw s tcm =
         Inr \<lparr>commits = map (\<lambda>c. c\<lparr>time := Some (tcm (ratio cs c))\<rparr>) cs,
              commitsLengthMap = snd (foldl (calc_step tcm) (cs, []) [0..<length cs])\<rparr>"
  using assms calc_loop_commits [of tcm cs "[]"]
  by (simp add: calculation_def Let_def)

lemma calculation_empty:
  assumes "parse raw s = Inr []"
  shows "calculation raw s tcm = Inl NoCommitsFound"
  using assms by (simp add: calculation_def)

lemma calculation_parse_error:
  assumes "parse raw s = Inl e"
  shows "calculation raw s tcm = Inl e"
  using assms by (simp add: calculation_def)

lemma calculation_cases:
  obtains (error) "parse raw s = Inl RangeError" "calculation raw s tcm = Inl RangeError"
  | (empty) "parse raw s = Inr []" "calculation raw s tcm = Inl NoCommitsFound"
  | (commits) cs where "parse raw s = Inr cs" "cs \<noteq> []"
      "calculation raw s tcm =
         Inr \<lparr>commits = map (\<lambda>c. c\<lparr>time := Some (tcm (ratio cs c))\<rparr>) cs,
              commitsLengthMap = snd (foldl (calc_step tcm) (cs, []) [0..<length cs])\<rparr>"
proof (cases "parse raw s")
  case (Inl e)
  then have "e = RangeError" by (rule parse_error)
  with Inl calculation_parse_error [OF Inl] error show ?thesis by simp
next
  case (Inr cs)
  show ?thesis
  proof (cases "cs = []")
    case True
    with Inr calculation_empty empty show ?thesis by simp
  next
    case False
    with Inr calculation_Inr commits show ?thesis by blast
  qed
qed

lemma calculation_Inr_parse:
  assumes "calculation raw s tcm = Inr r"
  obtains cs where "parse raw s = Inr cs" "cs \<noteq> []"
    "commits r = map (\<lambda>c. c\<lparr>time := Some (tcm (ratio cs c))\<rparr>) cs"
    "commitsLengthMap r = snd (foldl (calc_step tcm) (cs, []) [0..<length cs])"
proof (rule calculation_cases [of raw s tcm])
  assume "calculation raw s tcm = Inl RangeError"
  with assms show ?thesis by simp
next
  assume "calculation raw s tcm = Inl NoCommitsFound"
  with assms show ?thesis by simp
next
  fix cs
  assume p: "parse raw s = Inr cs" "cs \<noteq> []"
    and "calculation raw s tcm =
         Inr \<lparr>commits = map (\<lambda>c. c\<lparr>time := Some (tcm (ratio cs c))\<rparr>) cs,
              commitsLengthMap = snd (foldl (calc_step tcm) (cs, []) [0..<length cs])\<rparr>"
  with assms have "commits r = map (\<lambda>c. c\<lparr>time := Some (tcm (ratio cs c))\<rparr>) cs"
    "commitsLengthMap r = snd (foldl (calc_step tcm) (cs, []) [0..<length cs])"
    by auto
  with p show ?thesis by (rule that)
qed

lemma loop_map:
  assumes "set idxs = {0..<length cs}" "c \<in> set cs"
  shows "map_of (snd (foldl (calc_step tcm) (cs, []) idxs)) (shortDate c) =
         Some (day_count cs (shortDate c))"
proof -
  have a: "map_of (snd (cs, [])) d = (if d \<in> {} then Some (day_count (fst (cs, [])) d) else None)" for d
    by simp
  have b: "i < length (fst (cs, []))" if "i \<in> set idxs" for i
    using that assms(1) by simp
  from assms(2) obtain i where "i < length cs" "cs ! i = c" by (auto simp: in_set_conv_nth)
  then have "shortDate c \<in> (\<lambda>i. shortDate (fst (cs, []) ! i)) ` set idxs"
    using assms(1) by force
  then show ?thesis
    using foldl_calc_map [of "(cs, [])" "{}" idxs tcm "shortDate c", OF a b] by simp
qed

subsection \<open>The standard strategy\<close>

lemma lead_digit_nonneg: "0 \<le> lead_digit m"
proof (induction m rule: lead_digit.induct)
  case (1 m)
  show ?case
  proof (cases "m \<le> 0")
    case True
    then show ?thesis by (simp add: lead_digit.simps [of m])
  next
    case False
    note pos = this
    show ?thesis
    proof (cases "m < 1")
      case True
      with pos "1.IH"(1) show ?thesis by (simp add: lead_digit.simps [of m])
    next
      case False
      note ge1 = this
      show ?thesis
      proof (cases "10 \<le> m")
        case True
        with pos ge1 "1.IH"(2) show ?thesis by (simp add: lead_digit.simps [of m])
      next
        case False
        with pos ge1 show ?thesis by (simp add: lead_digit.simps [of m])
      qed
    qed
  qed
qed

lemma parseInt_nonneg:
  assumes "0 \<le> a"
  shows "\<exists>n. parseInt (Num a) = Num n \<and> 0 \<le> n"
  using assms lead_digit_nonneg [of "\<bar>a\<bar>"] by (auto simp: Let_def)

lemma parseInt_floor:
  assumes "a = 0 \<or> (1 / 10 ^ 6 \<le> a \<and> a < 10 ^ 21)"
  shows "parseInt (Num a) = Num (of_int \<lfloor>a\<rfloor>)"
  using assms by auto

lemma standard_time_NaN: "standard_time s NaN = minCommitTime s"
  by (simp add: standard_time_def js_or_def)

lemma standard_time_floor:
  assumes "maxHoursPerDay s = Num a" "graduation s = Num g" "g \<noteq> 0"
    and "\<rho> * a / g = 0 \<or> (1 / 10 ^ 6 \<le> \<rho> * a / g \<and> \<rho> * a / g < 10 ^ 21)"
  shows "standard_time s (Num \<rho>) =
         (if of_int \<lfloor>\<rho> * a / g\<rfloor> * g = 0 then minCommitTime s
          else Num (of_int \<lfloor>\<rho> * a / g\<rfloor> * g))"
  using assms(1-3) parseInt_floor [OF assms(4)]
  by (simp add: standard_time_def js_or_def)

lemma standard_time_nonneg:
  assumes "maxHoursPerDay s = Num a" "0 \<le> a" "graduation s = Num g" "0 < g"
    and "minCommitTime s = Num m" "0 \<le> m"
    and "r = NaN \<or> (\<exists>\<rho>. r = Num \<rho> \<and> 0 \<le> \<rho>)"
  shows "\<exists>t. standard_time s r = Num t \<and> 0 \<le> t"
proof (cases "r = NaN")
  case True
  with assms(5,6) show ?thesis by (simp add: standard_time_NaN)
next
  case False
  with assms(7) obtain \<rho> where r: "r = Num \<rho>" and \<rho>: "0 \<le> \<rho>" by auto
  from assms(2,4) \<rho> have "0 \<le> \<rho> * a / g" by simp
  then obtain n where n: "parseInt (Num (\<rho> * a / g)) = Num n" "0 \<le> n"
    using parseInt_nonneg by blast
  from n(2) assms(4) have "0 \<le> n * g" by simp
  with n(1) assms(1,3,4,5,6) r show ?thesis
    by (auto simp: standard_time_def js_or_def)
qed

lemma standardCalculation_nth:
  assumes "parse raw s = Inr cs" "standardCalculation raw s = Inr r" "i < length cs"
  shows "commits r ! i = (cs ! i)\<lparr>time := Some (standard_time s (ratio cs (cs ! i)))\<rparr>"
proof -
  from assms(2) have "calculation raw s (standard_time s) = Inr r"
    by (simp add: standardCalculation_def)
  then obtain cs' where "parse raw s = Inr cs'"
    and "commits r = map (\<lambda>c. c\<lparr>time := Some (standard_time s (ratio cs' c))\<rparr>) cs'"
    by (rule calculation_Inr_parse)
  with assms(1,3) show ?thesis by simp
qed

subsection \<open>The loops of the equal strategy\<close>

lemma round_step_upd: "round_step s h i = upd_at (round_c s) h i"
  by (simp add: round_step_def upd_at_def round_c_def round2_def Let_def)

lemma rescale_step_upd: "rescale_step s nm h i = upd_at (rescale_c s nm) h i"
  by (simp add: rescale_step_def upd_at_def rescale_c_def Let_def)

lemma clamp_step_upd:
  "clamp_step s st i =
     (upd_at (clamp_c s) (fst st) i,
      snd st + (if js_lt (num_of (time (fst st ! i))) (minCommitTime s) then 1 else 0))"
  by (simp add: clamp_step_def upd_at_def clamp_c_def Let_def)

lemma upd_at_length [simp]: "length (upd_at f h i) = length h"
  by (simp add: upd_at_def)

lemma foldl_upd_length [simp]: "length (foldl (upd_at f) h idxs) = length h"
  by (induction idxs arbitrary: h) simp_all

lemma foldl_upd_nth:
  assumes "distinct idxs" "j < length h"
  shows "foldl (upd_at f) h idxs ! j = (if j \<in> set idxs then f (h ! j) else h ! j)"
  using assms
proof (induction idxs arbitrary: h)
  case Nil
  show ?case by simp
next
  case (Cons i idxs)
  have "foldl (upd_at f) (upd_at f h i) idxs ! j =
        (if j \<in> set idxs then f (upd_at f h i ! j) else upd_at f h i ! j)"
    using Cons.prems by (intro Cons.IH) simp_all
  moreover have "upd_at f h i ! j = (if j = i then f (h ! i) else h ! j)"
    using Cons.prems by (simp add: upd_at_def)
  ultimately show ?case using Cons.prems by auto
qed

lemma below_min_cong:
  assumes "\<And>i. i \<in> set idxs \<Longrightarrow> h ! i = h' ! i"
  shows "below_min s h idxs = below_min s h' idxs"
  unfolding below_min_def using assms
  by (intro arg_cong [where f = length] filter_cong) auto

lemma foldl_clamp:
  assumes "distinct idxs"
  shows "foldl (clamp_step s) (h, n) idxs =
         (foldl (upd_at (clamp_c s)) h idxs, n + below_min s h idxs)"
  using assms
proof (induction idxs arbitrary: h n)
  case Nil
  show ?case by (simp add: below_min_def)
next
  case (Cons i idxs)
  let ?h = "upd_at (clamp_c s) h i"
  have "below_min s ?h idxs = below_min s h idxs"
  proof (rule below_min_cong)
    fix x
    assume "x \<in> set idxs"
    with Cons.prems have "x \<noteq> i" by auto
    then show "?h ! x = h ! x" by (simp add: upd_at_def)
  qed
  moreover have step: "clamp_step s (h, n) i =
      (?h, n + (if js_lt (num_of (time (h ! i))) (minCommitTime s) then 1 else 0))"
    by (simp add: clamp_step_upd)
  moreover have "distinct idxs" using Cons.prems by simp
  ultimately show ?case
    by (simp add: Cons.IH below_min_def)
qed

lemma equal_day_eq:
  assumes "distinct idxs"
  shows "equal_day s h idxs =
     foldl (upd_at (round_c s))
       (if below_min s h idxs \<noteq> 0
        then foldl (upd_at (rescale_c s (js_sub (maxHoursPerDay s)
                      (js_mul (Num (of_nat (below_min s h idxs))) (minCommitTime s)))))
               (foldl (upd_at (clamp_c s)) h idxs) idxs
        else foldl (upd_at (clamp_c s)) h idxs) idxs"
proof -
  have r: "foldl (round_step s) = foldl (upd_at (round_c s))"
    by (intro arg_cong [where f = foldl] ext) (rule round_step_upd)
  have q: "foldl (rescale_step s nm) = foldl (upd_at (rescale_c s nm))" for nm
    by (intro arg_cong [where f = foldl] ext) (rule rescale_step_upd)
  show ?thesis
    by (simp add: equal_day_def Let_def foldl_clamp [OF assms] r q)
qed

lemma equal_day_length: "distinct idxs \<Longrightarrow> length (equal_day s h idxs) = length h"
  by (simp add: equal_day_eq)

lemma equal_day_nth:
  assumes "distinct idxs" "j < length h"
  shows "equal_day s h idxs ! j =
         (if j \<in> set idxs then day_final s (below_min s h idxs) (h ! j) else h ! j)"
  using assms by (simp add: equal_day_eq foldl_upd_nth day_final_def)

lemma day_group_distinct [simp]: "distinct (day_group key n k)"
  by (simp add: day_group_def)

lemma day_group_set [simp]: "set (day_group key n k) = {i. i < n \<and> key i = k}"
  by (auto simp: day_group_def)

lemma foldl_equal_day_length:
  "length (foldl (equal_day s) h (map (day_group key n) ks)) = length h"
  by (induction ks arbitrary: h) (simp_all add: equal_day_length)

lemma foldl_equal_day_nth:
  assumes "distinct ks" "j < length h"
  shows "foldl (equal_day s) h (map (day_group key (length h)) ks) ! j =
         (if key j \<in> set ks
          then day_final s (below_min s h (day_group key (length h) (key j))) (h ! j)
          else h ! j)"
  using assms
proof (induction ks arbitrary: h)
  case Nil
  show ?case by simp
next
  case (Cons k ks)
  define h' where "h' = equal_day s h (day_group key (length h) k)"
  have len: "length h' = length h" by (simp add: h'_def equal_day_length)
  have nth: "h' ! i = (if key i = k then day_final s (below_min s h (day_group key (length h) k)) (h ! i) else h ! i)"
    if "i < length h" for i
    using that by (simp add: h'_def equal_day_nth)
  have IH: "foldl (equal_day s) h' (map (day_group key (length h')) ks) ! j =
         (if key j \<in> set ks
          then day_final s (below_min s h' (day_group key (length h') (key j))) (h' ! j)
          else h' ! j)"
    using Cons.prems len by (intro Cons.IH) simp_all
  have bm: "below_min s h' (day_group key (length h) (key j)) =
            below_min s h (day_group key (length h) (key j))" if "key j \<noteq> k"
    using that by (intro below_min_cong) (simp add: nth)
  show ?case
  proof (cases "key j = k")
    case True
    with Cons.prems have "key j \<notin> set ks" by auto
    with IH True Cons.prems show ?thesis
      by (simp add: h'_def [symmetric] len nth)
  next
    case False
    with IH Cons.prems bm show ?thesis
      by (simp add: h'_def [symmetric] len nth)
  qed
qed

lemma groupBy_groups:
  "map snd (groupBy_shortDate h) =
   map (day_group (\<lambda>i. shortDate (h ! i)) (length h)) (rev (remdups (rev (map shortDate h))))"
  by (simp add: groupBy_shortDate_def day_group_def o_def)

lemma equal_groups_nth:
  assumes "j < length h"
  shows "foldl (equal_day s) h (map snd (groupBy_shortDate h)) ! j =
         day_final s (below_min s h (day_group (\<lambda>i. shortDate (h ! i)) (length h) (shortDate (h ! j))))
           (h ! j)"
proof -
  have "distinct (rev (remdups (rev (map shortDate h))))" by simp
  moreover have "shortDate (h ! j) \<in> set (rev (remdups (rev (map shortDate h))))"
    using assms by simp
  ultimately show ?thesis
    unfolding groupBy_groups using assms
    by (simp add: foldl_equal_day_nth [where key = "\<lambda>i. shortDate (h ! i)"])
qed

lemma equal_groups_length:
  "length (foldl (equal_day s) h (map snd (groupBy_shortDate h))) = length h"
  unfolding groupBy_groups by (rule foldl_equal_day_length)

lemma strip_day_final [simp]: "strip (day_final s k c) = strip c"
  by (simp add: day_final_def round_c_def rescale_c_def clamp_c_def)

lemma time_day_final: "time (day_final s k c) \<noteq> None"
  by (simp add: day_final_def round_c_def)

lemma equal_groups_strip:
  "map strip (foldl (equal_day s) h (map snd (groupBy_shortDate h))) = map strip h"
  by (rule nth_equalityI) (simp_all add: equal_groups_length equal_groups_nth)

lemma equalCalculation_Inr:
  assumes "parse raw s = Inr cs" "cs \<noteq> []"
  shows "\<exists>m. equalCalculation raw s =
         Inr \<lparr>commits =
                foldl (equal_day s) (map (\<lambda>c. c\<lparr>time := Some (equal_time s (ratio cs c))\<rparr>) cs)
                  (map snd (groupBy_shortDate
                     (map (\<lambda>c. c\<lparr>time := Some (equal_time s (ratio cs c))\<rparr>) cs))),
              commitsLengthMap = m\<rparr>"
  using calculation_Inr [OF assms, of "equal_time s"]
  by (simp add: equalCalculation_def)

lemma equalCalculation_Inr_parse:
  assumes "equalCalculation raw s = Inr r"
  obtains cs where "parse raw s = Inr cs" "cs \<noteq> []"
proof (rule calculation_cases [of raw s "equal_time s"])
  assume "calculation raw s (equal_time s) = Inl RangeError"
  with assms show ?thesis by (simp add: equalCalculation_def)
next
  assume "calculation raw s (equal_time s) = Inl NoCommitsFound"
  with assms show ?thesis by (simp add: equalCalculation_def)
next
  fix cs
  assume "parse raw s = Inr cs" "cs \<noteq> []"
  then show ?thesis by (rule that)
qed

lemma equalCalculation_Inl:
  "equalCalculation raw s = Inl e \<longleftrightarrow> calculation raw s (equal_time s) = Inl e"
  by (simp add: equalCalculation_def split: sum.splits)

lemma pow10_nonzero [simp]: "pow10 p \<noteq> 0"
  by (simp add: pow10_def)

lemma pow10_Suc: "pow10 (p + 1) = 10 * pow10 p"
proof -
  consider "0 \<le> p" | "p = -1" | "p < -1" by linarith
  then show ?thesis
  proof cases
    case 1
    then have "nat (p + 1) = Suc (nat p)" by simp
    with 1 show ?thesis by (simp add: pow10_def)
  next
    case 2
    then show ?thesis by (simp add: pow10_def)
  next
    case 3
    then have "nat (- p) = Suc (nat (- (p + 1)))" by simp
    with 3 show ?thesis by (simp add: pow10_def)
  qed
qed

lemma lodash_round_grid:
  assumes "m * pow10 (min p 292) = of_int z"
  shows "lodash_round (Num m) p = Num m"
proof -
  have "\<lfloor>(of_int z :: rat) + 1 / 2\<rfloor> = z" by linarith
  moreover have "m = of_int z / pow10 (min p 292)"
    using assms by (simp add: field_simps)
  ultimately show ?thesis using assms by (simp add: Let_def)
qed

lemma round2_grid:
  assumes "m * pow10 (min p 292) = of_int z"
  shows "lodash_round (lodash_round (Num m) (p + 1)) p = Num m"
proof -
  have "\<exists>z'. m * pow10 (min (p + 1) 292) = of_int z'"
  proof (cases "p < 292")
    case True
    then have "min (p + 1) 292 = min p 292 + 1" by simp
    then have "m * pow10 (min (p + 1) 292) = of_int (10 * z)"
      using assms by (simp add: pow10_Suc)
    then show ?thesis ..
  next
    case False
    then have "min (p + 1) 292 = min p 292" by simp
    with assms show ?thesis by auto
  qed
  then obtain z' where "m * pow10 (min (p + 1) 292) = of_int z'" ..
  then have "lodash_round (Num m) (p + 1) = Num m" by (rule lodash_round_grid)
  moreover have "lodash_round (Num m) p = Num m" using assms by (rule lodash_round_grid)
  ultimately show ?thesis by simp
qed










lemma shortDate_day_final [simp]: "shortDate (day_final s k c) = shortDate c"
  by (metis strip_day_final strip_fields(1))






lemma calculation_adds_time_only:
  "(standardCalculation raw s = Inr r \<longrightarrow>
      parse raw s = Inr (map strip (commits r)) \<and>
      list_all (\<lambda>c. time c \<noteq> None \<and> \<not> isMinCommitTime c) (commits r)) \<and>
   (equalCalculation raw s = Inr r' \<longrightarrow>
      parse raw s = Inr (map strip (commits r')) \<and>
      list_all (\<lambda>c. time c \<noteq> None) (commits r'))"
proof (intro conjI impI)
  assume a: "standardCalculation raw s = Inr r"
  then have c: "calculation raw s (standard_time s) = Inr r"
    by (simp add: standardCalculation_def)
  from c obtain cs where p: "parse raw s = Inr cs"
    and r: "commits r = map (\<lambda>c. c\<lparr>time := Some (standard_time s (ratio cs c))\<rparr>) cs"
    by (rule calculation_Inr_parse)
  have fresh: "map strip cs = cs" using p by (rule parse_fresh)
  have "map strip (commits r) = map strip cs" by (simp add: r o_def)
  with fresh p show "parse raw s = Inr (map strip (commits r))" by simp
  have "\<not> isMinCommitTime c" if "c \<in> set cs" for c
  proof -
    from p that have "strip c = c" by (rule parse_fresh_elem)
    then have "isMinCommitTime c = isMinCommitTime (strip c)" by simp
    then show ?thesis by (simp add: strip_def)
  qed
  then show "list_all (\<lambda>c. time c \<noteq> None \<and> \<not> isMinCommitTime c) (commits r)"
    by (simp add: r list_all_iff)
next
  assume a: "equalCalculation raw s = Inr r'"
  then obtain cs where p: "parse raw s = Inr cs" and ne: "cs \<noteq> []"
    by (rule equalCalculation_Inr_parse)
  define h where "h = map (\<lambda>c. c\<lparr>time := Some (equal_time s (ratio cs c))\<rparr>) cs"
  from equalCalculation_Inr [OF p ne] a
  have r: "commits r' = foldl (equal_day s) h (map snd (groupBy_shortDate h))"
    by (auto simp: h_def)
  have "map strip (commits r') = map strip h" unfolding r by (rule equal_groups_strip)
  also have "\<dots> = map strip cs" by (simp add: h_def o_def)
  also have "\<dots> = cs" using p by (rule parse_fresh)
  finally show "parse raw s = Inr (map strip (commits r'))" using p by simp
  have "time (commits r' ! j) \<noteq> None" if "j < length (commits r')" for j
  proof -
    from that have "j < length h" by (simp add: r equal_groups_length)
    then show ?thesis unfolding r by (simp add: equal_groups_nth time_day_final)
  qed
  then show "list_all (\<lambda>c. time c \<noteq> None) (commits r')"
    by (auto simp: list_all_iff in_set_conv_nth)
qed

subsection \<open>The examples, evaluated\<close>

lemma ex_parse: "parse ex_raw ex_settings = Inr [ex_c1, ex_c2, ex_c3]"
  by code_simp

lemma ex_standard:
  "standardCalculation ex_raw ex_settings =
   Inr \<lparr>commits = [ex_c1\<lparr>time := Some (Num (3 / 4))\<rparr>, ex_c2\<lparr>time := Some (Num 7)\<rparr>,
                   ex_c3\<lparr>time := Some (Num 8)\<rparr>],
        commitsLengthMap = [(''2020-09-13'', 2), (''2020-09-14'', 1)]\<rparr>"
  by code_simp

lemma ex_equal:
  "equalCalculation ex_raw (ex_settings\<lparr>minCommitTime := Num 1\<rparr>) =
   Inr \<lparr>commits = [ex_c1\<lparr>time := Some (Num 1), isMinCommitTime := True\<rparr>,
                   ex_c2\<lparr>time := Some (Num (63 / 10))\<rparr>,
                   ex_c3\<lparr>time := Some (Num 8)\<rparr>],
        commitsLengthMap = [(''2020-09-13'', 2), (''2020-09-14'', 1)]\<rparr>"
  by code_simp


subsection \<open>A day of the equal strategy without a commit below the minimum\<close>


section \<open>The claims\<close>

subsection \<open>C1: the time of the standard strategy\<close>

text \<open>
  Claim C1 says that every commit of \<open>standardCalculation\<close> gets the time
  \<open>floor((ratio \<times> maxHoursPerDay) / graduation) \<times> graduation\<close>, or \<open>minCommitTime\<close>
  when that is 0. The code takes the integer part with \<open>parseInt\<close>, which reads the
  decimal string of the quotient: for a quotient below \<open>10\<^sup>-\<^sup>6\<close> the string is in
  exponent notation and \<open>parseInt\<close> returns its leading digit. In \<open>ex_large_day\<close> the
  first commit has 2 of the day's 128 000 000 lines; with 8 hours a day in steps of a
  quarter the quotient is \<open>5 \<times> 10\<^sup>-\<^sup>7\<close>, its floor is 0 and the claim gives the commit
  \<open>minCommitTime = 1/4\<close>. The code gives it \<open>parseInt("5e-7") \<times> 1/4 = 5/4\<close> hours.
\<close>

theorem standardCalculation_parseInt_not_floor:
  "parse ex_large_day ex_settings =
     Inr [ex_c1\<lparr>lines := 2\<rparr>, ex_c2\<lparr>text_ := Some ''Import data set'', lines := 127999998\<rparr>] \<and>
   ratio [ex_c1\<lparr>lines := 2\<rparr>, ex_c2\<lparr>text_ := Some ''Import data set'', lines := 127999998\<rparr>]
         (ex_c1\<lparr>lines := 2\<rparr>) = Num (1 / 64000000) \<and>
   js_div (js_mul (Num (1 / 64000000)) (maxHoursPerDay ex_settings)) (graduation ex_settings)
     = Num (5 / 10000000) \<and>
   parseInt (Num (5 / 10000000)) = Num 5 \<and>
   standardCalculation ex_large_day ex_settings =
     Inr \<lparr>commits = [ex_c1\<lparr>lines := 2, time := Some (Num (5 / 4))\<rparr>,
                     ex_c2\<lparr>text_ := Some ''Import data set'', lines := 127999998,
                           time := Some (Num (31 / 4))\<rparr>],
          commitsLengthMap = [(''2020-09-13'', 2)]\<rparr>"
  by code_simp

subsection \<open>C2: the times of a day under the equal strategy\<close>




subsection \<open>C3: commits below the minimum\<close>

text \<open>
  Claim C3, as amended. In \<open>equalCalculation\<close>, a commit whose proportional share
  \<open>ratio \<times> maxHoursPerDay\<close> is below \<open>minCommitTime\<close> is flagged \<open>isMinCommitTime\<close>, and
  its final time is \<open>minCommitTime\<close> after the two roundings: to
  \<open>equalRoundPrecision + 1\<close> digits, then to \<open>equalRoundPrecision\<close> digits. That is
  \<open>minCommitTime\<close> itself whenever \<open>minCommitTime\<close> is a whole multiple of
  \<open>10\<close> to the power \<open>- equalRoundPrecision\<close> (the precision capped at 292, as lodash
  caps it).
\<close>

theorem equalCalculation_clamped_time:
  assumes "parse raw s = Inr cs" "equalCalculation raw s = Inr r" "i < length cs"
    and "js_lt (js_mul (ratio cs (cs ! i)) (maxHoursPerDay s)) (minCommitTime s)"
  shows "time (commits r ! i) =
           Some (lodash_round (lodash_round (minCommitTime s) (equalRoundPrecision s + 1))
                   (equalRoundPrecision s)) \<and>
         isMinCommitTime (commits r ! i) \<and>
         (\<forall>m z. minCommitTime s = Num m \<and> m * pow10 (min (equalRoundPrecision s) 292) = of_int z
            \<longrightarrow> time (commits r ! i) = Some (Num m))"
proof -
  define h where "h = map (\<lambda>c. c\<lparr>time := Some (equal_time s (ratio cs c))\<rparr>) cs"
  from assms(1,2) have ne: "cs \<noteq> []"
    by (auto elim: equalCalculation_Inr_parse)
  from equalCalculation_Inr [OF assms(1) ne] assms(2)
  have r: "commits r = foldl (equal_day s) h (map snd (groupBy_shortDate h))"
    by (auto simp: h_def)
  have i: "i < length h" using assms(3) by (simp add: h_def)
  have t: "time (h ! i) = Some (js_mul (ratio cs (cs ! i)) (maxHoursPerDay s))"
    using assms(3) by (simp add: h_def equal_time_def)
  obtain k where nth: "commits r ! i = day_final s k (h ! i)"
    unfolding r using equal_groups_nth [OF i] by blast
  have c: "clamp_c s (h ! i) = (h ! i)\<lparr>time := Some (minCommitTime s), isMinCommitTime := True\<rparr>"
    using assms(4) t by (simp add: clamp_c_def)
  have f: "day_final s k (h ! i) =
           (h ! i)\<lparr>time := Some (round2 s (minCommitTime s)), isMinCommitTime := True\<rparr>"
    by (simp add: day_final_def c rescale_c_def round_c_def)
  have 1: "time (commits r ! i) = Some (round2 s (minCommitTime s))"
    and 2: "isMinCommitTime (commits r ! i)"
    by (simp_all add: nth f)
  have 3: "time (commits r ! i) = Some (Num m)"
    if "minCommitTime s = Num m" "m * pow10 (min (equalRoundPrecision s) 292) = of_int z" for m z
    using 1 that round2_grid [OF that(2)] by (simp add: round2_def)
  from 1 2 3 show ?thesis by (auto simp: round2_def)
qed

theorem equalCalculation_clamped_time_witness:
  "parse ex_raw (ex_settings\<lparr>minCommitTime := Num 1\<rparr>) = Inr [ex_c1, ex_c2, ex_c3] \<and>
   js_lt (js_mul (ratio [ex_c1, ex_c2, ex_c3] ([ex_c1, ex_c2, ex_c3] ! 0)) (Num 8)) (Num 1) \<and>
   equalCalculation ex_raw (ex_settings\<lparr>minCommitTime := Num 1\<rparr>) =
     Inr \<lparr>commits = [ex_c1\<lparr>time := Some (Num 1), isMinCommitTime := True\<rparr>,
                   ex_c2\<lparr>time := Some (Num (63 / 10))\<rparr>,
                   ex_c3\<lparr>time := Some (Num 8)\<rparr>],
        commitsLengthMap = [(''2020-09-13'', 2), (''2020-09-14'', 1)]\<rparr> \<and>
   time ([ex_c1\<lparr>time := Some (Num 1), isMinCommitTime := True\<rparr>,
          ex_c2\<lparr>time := Some (Num (63 / 10))\<rparr>, ex_c3\<lparr>time := Some (Num 8)\<rparr>] ! 0) =
     Some (lodash_round (lodash_round (Num 1) (2 + 1)) 2) \<and>
   lodash_round (lodash_round (Num 1) (2 + 1)) 2 = Num 1"
proof -
  have p: "parse ex_raw (ex_settings\<lparr>minCommitTime := Num 1\<rparr>) = Inr [ex_c1, ex_c2, ex_c3]"
    by code_simp
  have l: "js_lt (js_mul (ratio [ex_c1, ex_c2, ex_c3] ([ex_c1, ex_c2, ex_c3] ! 0))
                  (maxHoursPerDay (ex_settings\<lparr>minCommitTime := Num 1\<rparr>)))
            (minCommitTime (ex_settings\<lparr>minCommitTime := Num 1\<rparr>))"
    by code_simp
  have i: "0 < length [ex_c1, ex_c2, ex_c3]" by simp
  have g: "(1 :: rat) * pow10 (min (equalRoundPrecision (ex_settings\<lparr>minCommitTime := Num 1\<rparr>)) 292)
           = of_int 100"
    by (simp add: ex_settings_def pow10_def)
  from equalCalculation_clamped_time [OF p ex_equal i l] p l ex_equal g show ?thesis
    by (simp add: ex_settings_def)
qed

text \<open>
  The claim as it was stated, with the final time exactly \<open>minCommitTime\<close>, fails when
  the minimum has more digits than the precision keeps: a minimum of 0.125 hours at one
  decimal digit is rounded to 0.13 and then to 0.1.
\<close>

theorem equalCalculation_clamped_time_rounded_away:
  "parse ex_small_big ex_round_settings =
     Inr [ex_c1\<lparr>lines := 2\<rparr>, ex_c2\<lparr>lines := 198\<rparr>] \<and>
   ratio [ex_c1\<lparr>lines := 2\<rparr>, ex_c2\<lparr>lines := 198\<rparr>] (ex_c1\<lparr>lines := 2\<rparr>) = Num (1 / 100) \<and>
   js_lt (js_mul (Num (1 / 100)) (maxHoursPerDay ex_round_settings))
         (minCommitTime ex_round_settings) \<and>
   equalCalculation ex_small_big ex_round_settings =
     Inr \<lparr>commits = [ex_c1\<lparr>lines := 2, time := Some (Num (1 / 10)), isMinCommitTime := True\<rparr>,
                     ex_c2\<lparr>lines := 198, time := Some (Num (78 / 10))\<rparr>],
          commitsLengthMap = [(''2020-09-13'', 2)]\<rparr> \<and>
   Some (Num (1 / 10)) \<noteq> Some (minCommitTime ex_round_settings)"
  by code_simp

subsection \<open>C4: the ratio of a day without lines\<close>

text \<open>
  Claim C4 says that a commit of a day whose lines add up to 0 is given the ratio 0. The
  code divides without a guard: the ratio is \<open>0 / 0 = NaN\<close>. \<open>ex_merge_only\<close> is a day
  with one merge commit. With the identity as the time strategy the time is the ratio
  that the strategy was given, \<open>NaN\<close>; and \<open>equalCalculation\<close> returns the commit with
  the time \<open>NaN\<close>.
\<close>

theorem ratio_of_day_without_lines_is_NaN:
  "calculation ex_merge_only ex_settings (\<lambda>r. r) =
     Inr \<lparr>commits = [ex_c1\<lparr>text_ := Some ''Merge branch dev'', lines := 0, time := Some NaN\<rparr>],
          commitsLengthMap = [(''2020-09-13'', 1)]\<rparr> \<and>
   equalCalculation ex_merge_only ex_settings =
     Inr \<lparr>commits = [ex_c1\<lparr>text_ := Some ''Merge branch dev'', lines := 0, time := Some NaN\<rparr>],
          commitsLengthMap = [(''2020-09-13'', 1)]\<rparr>"
  by code_simp

subsection \<open>C5: no commits found\<close>

text \<open>
  Claim C5. The calculation ends with \<open>NoCommitsFound\<close> exactly when \<open>_parse\<close> returns
  the empty list, and when \<open>_parse\<close> returns a list that is not empty the calculation
  returns a result, with as many commits. This holds for \<open>_calculation\<close> with any time
  strategy and for both public strategies.
\<close>

theorem calculation_NoCommitsFound_iff:
  "(calculation raw s tcm = Inl NoCommitsFound \<longleftrightarrow> parse raw s = Inr []) \<and>
   (standardCalculation raw s = Inl NoCommitsFound \<longleftrightarrow> parse raw s = Inr []) \<and>
   (equalCalculation raw s = Inl NoCommitsFound \<longleftrightarrow> parse raw s = Inr []) \<and>
   (\<forall>cs. parse raw s = Inr cs \<and> cs \<noteq> [] \<longrightarrow>
      (\<exists>r. calculation raw s tcm = Inr r \<and> length (commits r) = length cs) \<and>
      (\<exists>r. standardCalculation raw s = Inr r \<and> length (commits r) = length cs) \<and>
      (\<exists>r. equalCalculation raw s = Inr r \<and> length (commits r) = length cs))"
proof -
  have a: "(calculation raw s f = Inl NoCommitsFound \<longleftrightarrow> parse raw s = Inr [])" for f
    by (rule calculation_cases [of raw s f]) auto
  have b: "\<exists>r. calculation raw s f = Inr r \<and> length (commits r) = length cs"
    if "parse raw s = Inr cs" "cs \<noteq> []" for f cs
    using calculation_Inr [OF that, of f] by simp
  have c: "\<exists>r. equalCalculation raw s = Inr r \<and> length (commits r) = length cs"
    if "parse raw s = Inr cs" "cs \<noteq> []" for cs
    using equalCalculation_Inr [OF that] by (auto simp: equal_groups_length)
  show ?thesis
    using a [of tcm] a [of "standard_time s"] a [of "equal_time s"] b c
    by (simp add: standardCalculation_def equalCalculation_Inl)
qed

theorem calculation_NoCommitsFound_iff_witness:
  "parse ex_raw ex_settings = Inr [ex_c1, ex_c2, ex_c3] \<and> [ex_c1, ex_c2, ex_c3] \<noteq> [] \<and>
   (\<exists>r. calculation ex_raw ex_settings (standard_time ex_settings) = Inr r \<and>
        length (commits r) = length [ex_c1, ex_c2, ex_c3]) \<and>
   (\<exists>r. equalCalculation ex_raw ex_settings = Inr r \<and>
        length (commits r) = length [ex_c1, ex_c2, ex_c3]) \<and>
   parse ex_raw (ex_settings\<lparr>endTime := Some 1599000000001\<rparr>) = Inr [] \<and>
   standardCalculation ex_raw (ex_settings\<lparr>endTime := Some 1599000000001\<rparr>) = Inl NoCommitsFound \<and>
   equalCalculation ex_raw (ex_settings\<lparr>endTime := Some 1599000000001\<rparr>) = Inl NoCommitsFound"
proof -
  have e: "parse ex_raw (ex_settings\<lparr>endTime := Some 1599000000001\<rparr>) = Inr []"
    by code_simp
  from calculation_NoCommitsFound_iff [of ex_raw ex_settings "standard_time ex_settings"]
    calculation_NoCommitsFound_iff [of ex_raw "ex_settings\<lparr>endTime := Some 1599000000001\<rparr>"
      "standard_time ex_settings"]
    ex_parse e
  show ?thesis by simp
qed

subsection \<open>C6: the window of \<open>_parse\<close>\<close>

text \<open>
  Claim C6. Every commit that \<open>_parse\<close> returns has its date strictly between
  \<open>startTime\<close> and \<open>endTime\<close>, which are then both valid dates.
\<close>

theorem parse_window_exclusive:
  assumes "parse raw s = Inr cs" "c \<in> set cs"
  shows "\<exists>a b. startTime s = Some a \<and> endTime s = Some b \<and> a < date c \<and> date c < b"
  using parse_window [OF assms] by (auto simp: in_window_def split: option.splits)

theorem parse_window_exclusive_witness:
  "parse ex_raw ex_settings = Inr [ex_c1, ex_c2, ex_c3] \<and> ex_c2 \<in> set [ex_c1, ex_c2, ex_c3] \<and>
   (\<exists>a b. startTime ex_settings = Some a \<and> endTime ex_settings = Some b \<and>
          a < date ex_c2 \<and> date ex_c2 < b)"
  using parse_window_exclusive [of ex_raw ex_settings "[ex_c1, ex_c2, ex_c3]" ex_c2] ex_parse by simp

subsection \<open>C7: times are not negative\<close>

text \<open>
  Claim C7 says that no commit has a negative time after either strategy. In
  \<open>ex_busy_day\<close>, with 8 hours a day and a minimum of 2 hours, five commits of 2 lines are
  raised to 2 hours each; what is left for the sixth, of 190 lines, is \<open>8 - 5 \<times> 2 = -2\<close>
  hours, and its time becomes \<open>7.6 / 8 \<times> (-2) = -1.9\<close>.
\<close>

theorem equalCalculation_negative_time:
  "(case equalCalculation ex_busy_day (ex_settings\<lparr>minCommitTime := Num 2\<rparr>) of
      Inl e \<Rightarrow> []
    | Inr r \<Rightarrow> map time (commits r)) =
   [Some (Num 2), Some (Num 2), Some (Num 2), Some (Num 2), Some (Num 2), Some (Num (- 19 / 10))]"
  by code_simp

subsection \<open>C8: \<open>commitsLengthMap\<close>\<close>

text \<open>
  Claim C8. In the result of the calculation, \<open>commitsLengthMap\<close> maps the \<open>shortDate\<close>
  of every commit to the number of commits of the result with that \<open>shortDate\<close>. The
  order of the loop does not matter: run over the indices of the parsed commits in any
  order \<open>idxs\<close>, the loop leaves the same count for every day.
\<close>

theorem commitsLengthMap_counts_day:
  "(calculation raw s tcm = Inr r \<and> c \<in> set (commits r) \<longrightarrow>
      map_of (commitsLengthMap r) (shortDate c) =
      Some (length (filter (\<lambda>c'. shortDate c' = shortDate c) (commits r)))) \<and>
   (parse raw s = Inr cs \<and> set idxs = {0..<length cs} \<and> c' \<in> set cs \<longrightarrow>
      map_of (snd (foldl (calc_step tcm) (cs, []) idxs)) (shortDate c') =
      Some (length (filter (\<lambda>c''. shortDate c'' = shortDate c') cs)))"
proof (intro conjI impI)
  assume "parse raw s = Inr cs \<and> set idxs = {0..<length cs} \<and> c' \<in> set cs"
  then show "map_of (snd (foldl (calc_step tcm) (cs, []) idxs)) (shortDate c') =
      Some (length (filter (\<lambda>c''. shortDate c'' = shortDate c') cs))"
    using loop_map [of idxs cs c' tcm] by (simp add: day_count_def)
next
  assume a: "calculation raw s tcm = Inr r \<and> c \<in> set (commits r)"
  show "map_of (commitsLengthMap r) (shortDate c) =
      Some (length (filter (\<lambda>c'. shortDate c' = shortDate c) (commits r)))"
  proof (rule calculation_cases [of raw s tcm])
    assume "calculation raw s tcm = Inl RangeError"
    with a show ?thesis by simp
  next
    assume "calculation raw s tcm = Inl NoCommitsFound"
    with a show ?thesis by simp
  next
    fix ps
    assume p: "parse raw s = Inr ps" "ps \<noteq> []"
      and c: "calculation raw s tcm =
         Inr \<lparr>commits = map (\<lambda>c. c\<lparr>time := Some (tcm (ratio ps c))\<rparr>) ps,
              commitsLengthMap = snd (foldl (calc_step tcm) (ps, []) [0..<length ps])\<rparr>"
    from a c have r: "commits r = map (\<lambda>c. c\<lparr>time := Some (tcm (ratio ps c))\<rparr>) ps"
      "commitsLengthMap r = snd (foldl (calc_step tcm) (ps, []) [0..<length ps])"
      by auto
    from a r(1) obtain p where pin: "p \<in> set ps" and sd: "shortDate c = shortDate p" by auto
    have "map_of (commitsLengthMap r) (shortDate p) = Some (day_count ps (shortDate p))"
      unfolding r(2) using pin by (intro loop_map) simp_all
    moreover have "day_count ps d = day_count (commits r) d" for d
      unfolding r(1) day_count_def by (simp add: filter_map o_def)
    ultimately show ?thesis by (simp add: sd day_count_def)
  qed
qed

theorem commitsLengthMap_counts_day_witness:
  "calculation ex_raw ex_settings (standard_time ex_settings) =
     Inr \<lparr>commits = [ex_c1\<lparr>time := Some (Num (3 / 4))\<rparr>, ex_c2\<lparr>time := Some (Num 7)\<rparr>,
                     ex_c3\<lparr>time := Some (Num 8)\<rparr>],
          commitsLengthMap = [(''2020-09-13'', 2), (''2020-09-14'', 1)]\<rparr> \<and>
   map_of [(''2020-09-13'', 2), (''2020-09-14'', 1)] (shortDate (ex_c2\<lparr>time := Some (Num 7)\<rparr>)) =
     Some (length (filter (\<lambda>c'. shortDate c' = shortDate (ex_c2\<lparr>time := Some (Num 7)\<rparr>))
       [ex_c1\<lparr>time := Some (Num (3 / 4))\<rparr>, ex_c2\<lparr>time := Some (Num 7)\<rparr>,
        ex_c3\<lparr>time := Some (Num 8)\<rparr>])) \<and>
   set [2, 0, 1] = {0..<length [ex_c1, ex_c2, ex_c3]} \<and>
   map_of (snd (foldl (calc_step (standard_time ex_settings)) ([ex_c1, ex_c2, ex_c3], []) [2, 0, 1]))
     (shortDate ex_c1) =
     Some (length (filter (\<lambda>c''. shortDate c'' = shortDate ex_c1) [ex_c1, ex_c2, ex_c3]))"
proof -
  have c: "calculation ex_raw ex_settings (standard_time ex_settings) =
     Inr \<lparr>commits = [ex_c1\<lparr>time := Some (Num (3 / 4))\<rparr>, ex_c2\<lparr>time := Some (Num 7)\<rparr>,
                     ex_c3\<lparr>time := Some (Num 8)\<rparr>],
          commitsLengthMap = [(''2020-09-13'', 2), (''2020-09-14'', 1)]\<rparr>"
    using ex_standard by (simp add: standardCalculation_def)
  have s: "set [2, 0, 1] = {0..<length [ex_c1, ex_c2, ex_c3]}" by auto
  show ?thesis
    using commitsLengthMap_counts_day [of ex_raw ex_settings "standard_time ex_settings"
        "\<lparr>commits = [ex_c1\<lparr>time := Some (Num (3 / 4))\<rparr>, ex_c2\<lparr>time := Some (Num 7)\<rparr>,
                     ex_c3\<lparr>time := Some (Num 8)\<rparr>],
          commitsLengthMap = [(''2020-09-13'', 2), (''2020-09-14'', 1)]\<rparr>"
        "ex_c2\<lparr>time := Some (Num 7)\<rparr>" "[ex_c1, ex_c2, ex_c3]" "[2, 0, 1]" ex_c1]
      c s ex_parse
    by simp
qed

subsection \<open>C9: commit texts with missing parts\<close>

text \<open>
  Claim C9, as amended. \<open>_parse\<close> returns a list exactly when the epoch seconds of every
  commit text give a valid date, which every run of decimal digits up to
  8 640 000 000 000 does. For such a text the lines are the sum of the two counts of the
  statistics line, and a count is 0 when the pattern does not match: in particular when
  the statistics line is absent (a text of one line) or has no digit.
\<close>

theorem parse_total_on_valid_epoch:
  "((\<exists>cs. parse raw s = Inr cs) \<longleftrightarrow> list_all (\<lambda>g. list_all valid_epoch (rawLog g)) raw) \<and>
   (digits_epoch b \<longrightarrow> valid_epoch b) \<and>
   (parse_commit folder b = Inr c \<longrightarrow>
      lines c = stat_count '' insertions'' (at_index (js_split (CHR 0x0A) b) 1)
              + stat_count '' deletions'' (at_index (js_split (CHR 0x0A) b) 1)) \<and>
   (exec_digits word (to_string m) = None \<longrightarrow> stat_count word m = 0) \<and>
   stat_count word None = 0 \<and>
   (list_all (\<lambda>x. \<not> is_digit x) st \<longrightarrow> stat_count word (Some st) = 0) \<and>
   (CHR 0x0A \<notin> set b \<longrightarrow> at_index (js_split (CHR 0x0A) b) 1 = None)"
  using parse_total_iff [of raw s] digits_epoch_valid [of b] parse_commit_lines [of folder b c]
    stat_count_no_match [of word m] stat_count_absent [of word] stat_count_no_digit [of st word] js_split_no_sep [of "CHR 0x0A" b]
  by (simp add: at_index_def)

theorem parse_total_on_valid_epoch_witness:
  "(\<exists>cs. parse ex_raw ex_settings = Inr cs) \<and>
   list_all (\<lambda>g. list_all valid_epoch (rawLog g)) ex_raw \<and>
   digits_epoch (''1b6d3f2a8c0e4f5a9b7c6d5e4f3a2b1c0d9e8f7a;1b6d3f2;1600000000;Merge branch dev'') \<and>
   valid_epoch (''1b6d3f2a8c0e4f5a9b7c6d5e4f3a2b1c0d9e8f7a;1b6d3f2;1600000000;Merge branch dev'') \<and>
   CHR 0x0A \<notin> set ''1b6d3f2a8c0e4f5a9b7c6d5e4f3a2b1c0d9e8f7a;1b6d3f2;1600000000;Merge branch dev'' \<and>
   parse_commit ''/home/dev/work/api/.git''
       ''1b6d3f2a8c0e4f5a9b7c6d5e4f3a2b1c0d9e8f7a;1b6d3f2;1600000000;Merge branch dev'' =
     Inr (ex_c1\<lparr>text_ := Some ''Merge branch dev'', lines := 0\<rparr>) \<and>
   lines (ex_c1\<lparr>text_ := Some ''Merge branch dev'', lines := 0\<rparr>) =
     stat_count '' insertions'' None + stat_count '' deletions'' None \<and>
   list_all (\<lambda>x. \<not> is_digit x) '' (binary files differ)'' \<and>
   stat_count '' insertions'' (Some '' (binary files differ)'') = 0"
proof -
  let ?b = "''1b6d3f2a8c0e4f5a9b7c6d5e4f3a2b1c0d9e8f7a;1b6d3f2;1600000000;Merge branch dev''"
  have d: "digits_epoch ?b" by code_simp
  have n: "CHR 0x0A \<notin> set ?b" by simp
  have c: "parse_commit ''/home/dev/work/api/.git'' ?b =
             Inr (ex_c1\<lparr>text_ := Some ''Merge branch dev'', lines := 0\<rparr>)"
    by code_simp
  have nd: "list_all (\<lambda>x. \<not> is_digit x) '' (binary files differ)''"
    by (simp add: is_digit_def)
  from parse_total_on_valid_epoch [of ex_raw ex_settings ?b "''/home/dev/work/api/.git''"
      "ex_c1\<lparr>text_ := Some ''Merge branch dev'', lines := 0\<rparr>" "'' insertions''"
      "Some '' (binary files differ)''" "'' (binary files differ)''"]
    ex_parse d n c nd
  show ?thesis by (simp add: stat_count_absent)
qed

text \<open>
  The claim as it was stated, with missing epoch seconds read as 0, fails: a description
  line of two fields has \<open>undefined\<close> epoch seconds, the date is invalid, and
  \<open>toISOString\<close> throws.
\<close>

theorem parse_missing_epoch_RangeError:
  "parse ex_no_epoch ex_settings = Inl RangeError"
  by code_simp

subsection \<open>C10: the calculation keeps the parsed commits\<close>

text \<open>
  Claim C10. The commits that \<open>standardCalculation\<close> and \<open>equalCalculation\<close> return
  are the commits of \<open>_parse\<close>, in its order (ascending by date), with the parsed
  properties unchanged: without \<open>time\<close> and the flag they are the list of \<open>_parse\<close>.
  Every commit has a time, and the standard strategy sets no flag.
\<close>

theorem calculation_keeps_parsed_commits:
  "(standardCalculation raw s = Inr r \<longrightarrow>
      parse raw s = Inr (map strip (commits r)) \<and>
      sorted (map date (commits r)) \<and>
      list_all (\<lambda>c. time c \<noteq> None \<and> \<not> isMinCommitTime c) (commits r)) \<and>
   (equalCalculation raw s = Inr r' \<longrightarrow>
      parse raw s = Inr (map strip (commits r')) \<and>
      sorted (map date (commits r')) \<and>
      list_all (\<lambda>c. time c \<noteq> None) (commits r'))"
proof -
  have srt: "sorted (map date cs)" if "parse raw s = Inr (map strip cs)" for cs
  proof -
    from that have "sorted (map date (map strip cs))" by (rule parse_sorted)
    then show ?thesis by (simp add: o_def)
  qed
  from calculation_adds_time_only [of raw s r r'] srt show ?thesis by blast
qed

theorem calculation_keeps_parsed_commits_witness:
  "standardCalculation ex_raw ex_settings =
     Inr \<lparr>commits = [ex_c1\<lparr>time := Some (Num (3 / 4))\<rparr>, ex_c2\<lparr>time := Some (Num 7)\<rparr>,
                     ex_c3\<lparr>time := Some (Num 8)\<rparr>],
          commitsLengthMap = [(''2020-09-13'', 2), (''2020-09-14'', 1)]\<rparr> \<and>
   parse ex_raw ex_settings =
     Inr (map strip [ex_c1\<lparr>time := Some (Num (3 / 4))\<rparr>, ex_c2\<lparr>time := Some (Num 7)\<rparr>,
                     ex_c3\<lparr>time := Some (Num 8)\<rparr>]) \<and>
   equalCalculation ex_raw (ex_settings\<lparr>minCommitTime := Num 1\<rparr>) =
     Inr \<lparr>commits = [ex_c1\<lparr>time := Some (Num 1), isMinCommitTime := True\<rparr>,
                   ex_c2\<lparr>time := Some (Num (63 / 10))\<rparr>,
                   ex_c3\<lparr>time := Some (Num 8)\<rparr>],
        commitsLengthMap = [(''2020-09-13'', 2), (''2020-09-14'', 1)]\<rparr> \<and>
   parse ex_raw (ex_settings\<lparr>minCommitTime := Num 1\<rparr>) =
     Inr (map strip [ex_c1\<lparr>time := Some (Num 1), isMinCommitTime := True\<rparr>,
                   ex_c2\<lparr>time := Some (Num (63 / 10))\<rparr>,
                   ex_c3\<lparr>time := Some (Num 8)\<rparr>])"
  using calculation_keeps_parsed_commits [of ex_raw ex_settings
        "\<lparr>commits = [ex_c1\<lparr>time := Some (Num (3 / 4))\<rparr>, ex_c2\<lparr>time := Some (Num 7)\<rparr>,
                     ex_c3\<lparr>time := Some (Num 8)\<rparr>],
          commitsLengthMap = [(''2020-09-13'', 2), (''2020-09-14'', 1)]\<rparr>"
        "\<lparr>commits = [], commitsLengthMap = []\<rparr>"]
    calculation_keeps_parsed_commits [of ex_raw "ex_settings\<lparr>minCommitTime := Num 1\<rparr>"
        "\<lparr>commits = [], commitsLengthMap = []\<rparr>"
        "\<lparr>commits = [ex_c1\<lparr>time := Some (Num 1), isMinCommitTime := True\<rparr>,
                   ex_c2\<lparr>time := Some (Num (63 / 10))\<rparr>,
                   ex_c3\<lparr>time := Some (Num 8)\<rparr>],
        commitsLengthMap = [(''2020-09-13'', 2), (''2020-09-14'', 1)]\<rparr>"]
    ex_standard ex_equal
  by simp

section \<open>What holds where a claim fails\<close>

text \<open>
  The ratio that \<open>_calculation\<close> passes to the strategy, for a commit \<open>c\<close> of the parsed
  list: \<open>NaN\<close> when the lines of its day add up to 0, and the commit's share of the
  lines of its day, a number from 0 to 1, in every other case (compare C4).
\<close>

theorem ratio_NaN_or_share:
  assumes "c \<in> set cs"
  shows "(linesInDay cs c = 0 \<longrightarrow> ratio cs c = NaN) \<and>
         (0 < linesInDay cs c \<longrightarrow>
            ratio cs c = Num (of_nat (lines c) / of_nat (linesInDay cs c)) \<and>
            0 \<le> (of_nat (lines c) / of_nat (linesInDay cs c) :: rat) \<and>
            (of_nat (lines c) / of_nat (linesInDay cs c) :: rat) \<le> 1)"
  using assms by (rule ratio_value)

theorem ratio_NaN_or_share_witness:
  "ex_c1 \<in> set [ex_c1, ex_c2, ex_c3] \<and> 0 < linesInDay [ex_c1, ex_c2, ex_c3] ex_c1 \<and>
   ratio [ex_c1, ex_c2, ex_c3] ex_c1 = Num (1 / 10)"
proof -
  have m: "ex_c1 \<in> set [ex_c1, ex_c2, ex_c3]" by simp
  have l: "linesInDay [ex_c1, ex_c2, ex_c3] ex_c1 = 100" by code_simp
  have n: "lines ex_c1 = 10" by (simp add: ex_c1_def)
  from ratio_NaN_or_share [OF m] m l n show ?thesis by simp
qed

text \<open>
  The formula of C1 holds for every commit whose quotient
  \<open>ratio \<times> maxHoursPerDay / graduation\<close> is 0 or lies in the range where a number prints
  in positional notation, from \<open>10\<^sup>-\<^sup>6\<close> up to \<open>10\<^sup>2\<^sup>1\<close>; a commit of a day without
  lines gets \<open>minCommitTime\<close>.
\<close>

theorem standardCalculation_time_floor:
  assumes "parse raw s = Inr cs" "standardCalculation raw s = Inr r" "i < length cs"
    and "maxHoursPerDay s = Num a" "graduation s = Num g" "g \<noteq> 0"
  shows "(ratio cs (cs ! i) = NaN \<longrightarrow> time (commits r ! i) = Some (minCommitTime s)) \<and>
         (\<forall>\<rho>. ratio cs (cs ! i) = Num \<rho> \<and>
              (\<rho> * a / g = 0 \<or> (1 / 10 ^ 6 \<le> \<rho> * a / g \<and> \<rho> * a / g < 10 ^ 21)) \<longrightarrow>
              time (commits r ! i) =
                Some (if of_int \<lfloor>\<rho> * a / g\<rfloor> * g = 0 then minCommitTime s
                      else Num (of_int \<lfloor>\<rho> * a / g\<rfloor> * g)))"
  using standardCalculation_nth [OF assms(1-3)] standard_time_floor [OF assms(4-6)]
  by (simp add: standard_time_NaN)

theorem standardCalculation_time_floor_witness:
  "parse ex_raw ex_settings = Inr [ex_c1, ex_c2, ex_c3] \<and>
   ratio [ex_c1, ex_c2, ex_c3] ([ex_c1, ex_c2, ex_c3] ! 0) = Num (1 / 10) \<and>
   (1 / 10 ^ 6 \<le> (1 / 10 :: rat) * 8 / (1 / 4) \<and> (1 / 10 :: rat) * 8 / (1 / 4) < 10 ^ 21) \<and>
   time ([ex_c1\<lparr>time := Some (Num (3 / 4))\<rparr>, ex_c2\<lparr>time := Some (Num 7)\<rparr>,
          ex_c3\<lparr>time := Some (Num 8)\<rparr>] ! 0) =
     Some (Num (of_int \<lfloor>(1 / 10 :: rat) * 8 / (1 / 4)\<rfloor> * (1 / 4)))"
proof -
  have i: "0 < length [ex_c1, ex_c2, ex_c3]" by simp
  have a: "maxHoursPerDay ex_settings = Num 8" "graduation ex_settings = Num (1 / 4)"
    by (simp_all add: ex_settings_def)
  have g: "(1 / 4 :: rat) \<noteq> 0" by simp
  have r: "ratio [ex_c1, ex_c2, ex_c3] ([ex_c1, ex_c2, ex_c3] ! 0) = Num (1 / 10)" by code_simp
  have q: "1 / 10 ^ 6 \<le> (1 / 10 :: rat) * 8 / (1 / 4) \<and> (1 / 10 :: rat) * 8 / (1 / 4) < 10 ^ 21"
    by simp
  have f: "\<lfloor>(1 / 10 :: rat) * 8 / (1 / 4)\<rfloor> = 3" by code_simp
  from standardCalculation_time_floor [OF ex_parse ex_standard i a g] r q f ex_parse
  show ?thesis by simp
qed

text \<open>
  The invariant of C7 holds for the standard strategy: with \<open>maxHoursPerDay \<ge> 0\<close>,
  \<open>graduation > 0\<close> and \<open>minCommitTime \<ge> 0\<close>, every time is a number that is not negative.
\<close>

theorem standardCalculation_time_nonneg:
  assumes "standardCalculation raw s = Inr r" "c \<in> set (commits r)"
    and "maxHoursPerDay s = Num a" "0 \<le> a" "graduation s = Num g" "0 < g"
    and "minCommitTime s = Num m" "0 \<le> m"
  shows "\<exists>t. time c = Some (Num t) \<and> 0 \<le> t"
proof -
  from assms(1) have "calculation raw s (standard_time s) = Inr r"
    by (simp add: standardCalculation_def)
  then obtain cs where "parse raw s = Inr cs"
    and r: "commits r = map (\<lambda>c. c\<lparr>time := Some (standard_time s (ratio cs c))\<rparr>) cs"
    by (rule calculation_Inr_parse)
  from assms(2) r obtain c0 where c0: "c0 \<in> set cs"
    and c: "c = c0\<lparr>time := Some (standard_time s (ratio cs c0))\<rparr>" by auto
  have "ratio cs c0 = NaN \<or> (\<exists>\<rho>. ratio cs c0 = Num \<rho> \<and> 0 \<le> \<rho>)"
    using ratio_value [OF c0] by (cases "linesInDay cs c0 = 0") auto
  from standard_time_nonneg [OF assms(3-8) this] c show ?thesis by simp
qed

theorem standardCalculation_time_nonneg_witness:
  "standardCalculation ex_raw ex_settings =
     Inr \<lparr>commits = [ex_c1\<lparr>time := Some (Num (3 / 4))\<rparr>, ex_c2\<lparr>time := Some (Num 7)\<rparr>,
                     ex_c3\<lparr>time := Some (Num 8)\<rparr>],
          commitsLengthMap = [(''2020-09-13'', 2), (''2020-09-14'', 1)]\<rparr> \<and>
   (\<exists>t. time (ex_c2\<lparr>time := Some (Num 7)\<rparr>) = Some (Num t) \<and> 0 \<le> t)"
proof -
  have a: "maxHoursPerDay ex_settings = Num 8" "(0 :: rat) \<le> 8"
    "graduation ex_settings = Num (1 / 4)" "(0 :: rat) < 1 / 4"
    "minCommitTime ex_settings = Num (1 / 4)" "(0 :: rat) \<le> 1 / 4"
    by (simp_all add: ex_settings_def)
  have m: "ex_c2\<lparr>time := Some (Num 7)\<rparr> \<in> set (commits
     \<lparr>commits = [ex_c1\<lparr>time := Some (Num (3 / 4))\<rparr>, ex_c2\<lparr>time := Some (Num 7)\<rparr>,
                     ex_c3\<lparr>time := Some (Num 8)\<rparr>],
          commitsLengthMap = [(''2020-09-13'', 2), (''2020-09-14'', 1)]\<rparr>)"
    by simp
  from standardCalculation_time_nonneg [OF ex_standard m a] ex_standard show ?thesis by simp
qed

end

